theory Spec2Isabelle
  imports Complex_Main "HOL-Library.Log_Nat"
begin

section \<open>Single-precision floats\<close>

text \<open>
  The C type \<^verbatim>\<open>float\<close> is modelled as the finite IEEE 754 binary32 numbers, written
  \<open>mant * 2 ^ expo\<close>. A number is a binary32 when its mantissa has at most 24 bits and
  its exponent is at least -149 (the exponent of the smallest subnormal). Overflow to
  infinity is outside the model: every float that \<^verbatim>\<open>main.cpp\<close> computes is below 8.
\<close>

datatype f32 = F32 (mant: int) (expo: int)

fun valf :: "f32 \<Rightarrow> real" where
  "valf (F32 m e) = (if 0 \<le> e then of_int m * 2 ^ nat e else of_int m / 2 ^ nat (- e))"

fun is_f32 :: "f32 \<Rightarrow> bool" where
  "is_f32 (F32 m e) \<longleftrightarrow> \<bar>m\<bar> < 2 ^ 24 \<and> - 149 \<le> e"

text \<open>
  Rounding of the exact number \<open>m * 2 ^ e\<close> to the nearest binary32, ties to the even
  mantissa (the default rounding of C's float arithmetic): \<open>s\<close> low bits of the
  magnitude are dropped, as many as it takes to leave 24 bits and an exponent of at
  least -149.
\<close>

definition round_f32 :: "int \<Rightarrow> int \<Rightarrow> f32" where
  "round_f32 m e =
     (let n = \<bar>m\<bar>; s = max (bitlen n - 24) (- 149 - e) in
      if s \<le> 0 then F32 m e
      else
        let q = n div 2 ^ nat s;
            rest = n mod 2 ^ nat s;
            half = 2 ^ (nat s - 1);
            q' = (if half < rest \<or> (rest = half \<and> odd q) then q + 1 else q)
        in if q' = 2 ^ 24 then F32 (sgn m * 2 ^ 23) (e + s + 1)
           else F32 (sgn m * q') (e + s))"

text \<open>The product of two floats: the exact product, rounded once.\<close>

fun fmul :: "f32 \<Rightarrow> f32 \<Rightarrow> f32" where
  "fmul (F32 m1 e1) (F32 m2 e2) = round_f32 (m1 * m2) (e1 + e2)"

text \<open>The conversion of an integer to \<^verbatim>\<open>float\<close>.\<close>

definition f32_of_int :: "int \<Rightarrow> f32" where
  "f32_of_int n = round_f32 n 0"

text \<open>
  \<^verbatim>\<open>SDL_PI_F\<close> is a macro of SDL's headers, the literal
  \<^verbatim>\<open>3.141592653589793238462643383279502884F\<close>: the binary32 nearest to pi, which is
  \<open>13176795 / 2 ^ 22\<close> and lies a little above pi.
\<close>

definition SDL_PI_F :: f32 where
  "SDL_PI_F = F32 13176795 (- 22)"

section \<open>The data of main.cpp\<close>

definition windowStartWidth :: int where
  "windowStartWidth = 640"

definition windowStartHeight :: int where
  "windowStartHeight = 480"

datatype SDL_AppResult = SDL_APP_CONTINUE | SDL_APP_SUCCESS | SDL_APP_FAILURE

text \<open>
  \<^verbatim>\<open>struct AppContext\<close>. The handles are numbers; \<^verbatim>\<open>messageDest\<close>, which is never
  written or read, is left out. \<^verbatim>\<open>app_quit\<close> has the default member initialiser
  \<^verbatim>\<open>SDL_APP_CONTINUE\<close>.
\<close>

record AppContext =
  window :: nat
  device :: nat
  audioDevice :: nat
  music :: nat
  app_quit :: SDL_AppResult

text \<open>\<^verbatim>\<open>struct SpriteInstance\<close>: sixteen floats.\<close>

record SpriteInstance =
  x :: f32
  y :: f32
  z :: f32
  rotation :: f32
  w :: f32
  h :: f32
  padding_a :: f32
  padding_b :: f32
  tex_u :: f32
  tex_v :: f32
  tex_w :: f32
  tex_h :: f32
  r :: f32
  g :: f32
  b :: f32
  a :: f32

definition SPRITE_COUNT :: nat where
  "SPRITE_COUNT = 8192"

text \<open>\<^verbatim>\<open>uCoords = { 0.0f, 0.5f, 0.0f, 0.5f }\<close> and \<^verbatim>\<open>vCoords = { 0.0f, 0.0f, 0.5f, 0.5f }\<close>.\<close>

definition uCoords :: "f32 list" where
  "uCoords = [F32 0 0, F32 1 (- 1), F32 0 0, F32 1 (- 1)]"

definition vCoords :: "f32 list" where
  "vCoords = [F32 0 0, F32 0 0, F32 1 (- 1), F32 1 (- 1)]"

text \<open>
  Reading a C array at a signed index. A read outside the array is undefined behaviour
  in C; here it is \<open>None\<close>.
\<close>

definition array_read :: "'a list \<Rightarrow> int \<Rightarrow> 'a option" where
  "array_read xs i = (if 0 \<le> i \<and> i < int (length xs) then Some (xs ! nat i) else None)"

section \<open>The random number generator\<close>

text \<open>
  \<^verbatim>\<open>SDL_srand\<close>, \<^verbatim>\<open>SDL_rand\<close> and \<^verbatim>\<open>SDL_randf\<close> belong to the SDL library, not to
  this program. They are parameters of the model: a generator has a state of some type
  \<open>'g\<close>, and each draw returns a number and the next state. \<^verbatim>\<open>SDL_srand(seed)\<close> sets
  the state; SDL documents that a seed of 0 stands for a reading of the performance
  counter, so the state it leaves is a function of the seed and of that reading.
\<close>

record 'g sdl_random =
  SDL_srand :: "nat \<Rightarrow> nat \<Rightarrow> 'g"
  SDL_rand :: "int \<Rightarrow> 'g \<Rightarrow> int \<times> 'g"
  SDL_randf :: "'g \<Rightarrow> f32 \<times> 'g"

text \<open>
  What SDL documents of the two functions: \<^verbatim>\<open>SDL_rand(n)\<close> is at least 0 and less than
  \<open>n\<close> for positive \<open>n\<close>; \<^verbatim>\<open>SDL_randf()\<close> is a float that is at least 0 and less than 1.
\<close>

definition rng_contract :: "'g sdl_random \<Rightarrow> bool" where
  "rng_contract R \<longleftrightarrow>
     (\<forall>gen n. 0 < n \<longrightarrow> 0 \<le> fst (SDL_rand R n gen) \<and> fst (SDL_rand R n gen) < n) \<and>
     (\<forall>gen. is_f32 (fst (SDL_randf R gen)) \<and> 0 \<le> valf (fst (SDL_randf R gen)) \<and>
        valf (fst (SDL_randf R gen)) < 1)"

text \<open>
  A generator to run the model with: a 64-bit linear congruential generator whose upper
  32 bits are the output, scaled to the range asked for. Its state after seeding is the
  seed, or the reading of the counter when the seed is 0.
\<close>

definition lcg_next :: "nat \<Rightarrow> nat" where
  "lcg_next st = (st * 4280078389 + 5) mod 2 ^ 64"

definition lcg :: "nat sdl_random" where
  "lcg = \<lparr>SDL_srand = (\<lambda>seed counter. if seed = 0 then counter else seed),
          SDL_rand = (\<lambda>n st. (if n < 0 then 0 else int (lcg_next st div 2 ^ 32) * n div 2 ^ 32, lcg_next st)),
          SDL_randf = (\<lambda>st. (F32 (int (lcg_next st div 2 ^ 32 div 2 ^ 8)) (- 24), lcg_next st))\<rparr>"

section \<open>The build loop of SDL\_AppIterate\<close>

text \<open>
  The body of the loop at one slot, \<^verbatim>\<open>dataPtr[i]\<close>: four draws, then the fourteen
  assignments. The two padding fields are not assigned.
\<close>

definition write_sprite :: "'g sdl_random \<Rightarrow> 'g \<Rightarrow> SpriteInstance \<Rightarrow> ('g \<times> SpriteInstance) option" where
  "write_sprite R gen s =
     (let (ravioli, gen1) = SDL_rand R 4 gen;
          (px, gen2) = SDL_rand R 640 gen1;
          (py, gen3) = SDL_rand R 480 gen2;
          (rf, gen4) = SDL_randf R gen3
      in case (array_read uCoords ravioli, array_read vCoords ravioli) of
           (Some u, Some v) \<Rightarrow>
             Some (gen4,
               s\<lparr>x := f32_of_int px,
                 y := f32_of_int py,
                 z := f32_of_int 0,
                 rotation := fmul (fmul rf SDL_PI_F) (f32_of_int 2),
                 w := f32_of_int 32,
                 h := f32_of_int 32,
                 tex_u := u,
                 tex_v := v,
                 tex_w := F32 1 (- 1),
                 tex_h := F32 1 (- 1),
                 r := F32 1 0,
                 g := F32 1 0,
                 b := F32 1 0,
                 a := F32 1 0\<rparr>)
         | _ \<Rightarrow> None)"

text \<open>
  \<^verbatim>\<open>for (Uint32 i = 0; i < SPRITE_COUNT; i += 1)\<close> over the mapped memory, which is
  addressed by slot number: slots from \<open>SPRITE_COUNT\<close> on lie behind the buffer. The
  counter stays below 8192, so it never wraps.
\<close>

function build_loop ::
  "'g sdl_random \<Rightarrow> nat \<Rightarrow> 'g \<Rightarrow> (nat \<Rightarrow> SpriteInstance) \<Rightarrow> ('g \<times> (nat \<Rightarrow> SpriteInstance)) option" where
  "build_loop R i gen dataPtr =
     (if i < SPRITE_COUNT then
        (case write_sprite R gen (dataPtr i) of
           None \<Rightarrow> None
         | Some (gen', s) \<Rightarrow> build_loop R (i + 1) gen' (dataPtr(i := s)))
      else Some (gen, dataPtr))"
  by pat_completeness auto
termination
  by (relation "measure (\<lambda>(R, i, gen, dataPtr). SPRITE_COUNT - i)") auto

text \<open>The generator's state after the four draws of one sprite.\<close>

definition advance :: "'g sdl_random \<Rightarrow> 'g \<Rightarrow> 'g" where
  "advance R gen = snd (SDL_randf R (snd (SDL_rand R 480 (snd (SDL_rand R 640 (snd (SDL_rand R 4 gen)))))))"

text \<open>
  The four draws of one sprite, in the order of lines 422 to 426: the quadrant, x, y and
  the draw for the rotation.
\<close>

definition sprite_draws :: "'g sdl_random \<Rightarrow> 'g \<Rightarrow> int \<times> int \<times> int \<times> f32" where
  "sprite_draws R gen =
     (let (ravioli, gen1) = SDL_rand R 4 gen;
          (px, gen2) = SDL_rand R 640 gen1;
          (py, gen3) = SDL_rand R 480 gen2;
          (rf, gen4) = SDL_randf R gen3
      in (ravioli, px, py, rf))"

text \<open>The draws of one run of the loop, slot by slot.\<close>

definition frame_draws :: "'g sdl_random \<Rightarrow> 'g \<Rightarrow> (int \<times> int \<times> int \<times> f32) list" where
  "frame_draws R gen = map (\<lambda>i. sprite_draws R ((advance R ^^ i) gen)) [0..<SPRITE_COUNT]"

text \<open>The region that \<^verbatim>\<open>SDL_UploadToGPUBuffer\<close> copies: \<open>SPRITE_COUNT\<close> records from offset 0.\<close>

definition sprite_array :: "(nat \<Rightarrow> SpriteInstance) \<Rightarrow> SpriteInstance list" where
  "sprite_array mem = map mem [0..<SPRITE_COUNT]"

section \<open>The backend\<close>

text \<open>
  Calls into SDL, its satellite libraries and the helpers of \<^verbatim>\<open>common.h\<close> are recorded
  in a trace, in the order in which they are made. \<open>SDL_LogError_call\<close> is the
  \<^verbatim>\<open>SDL_LogError\<close> of \<^verbatim>\<open>SDL_Fail\<close>; \<open>Backend_call\<close> stands for a call named by its
  function, where the arguments play no part in what follows.
\<close>

datatype SDL_GPUPresentMode =
  SDL_GPU_PRESENTMODE_VSYNC | SDL_GPU_PRESENTMODE_IMMEDIATE | SDL_GPU_PRESENTMODE_MAILBOX

datatype backend_call =
  SDL_LogError_call
| SDL_Log_call string
| SDL_CreateWindow_call int int
| SDL_WindowSupportsGPUPresentMode_call SDL_GPUPresentMode
| SDL_SetGPUSwapchainParameters_call SDL_GPUPresentMode
| SDL_srand_call nat
| LoadShader_call string
| SDL_CreateGPUGraphicsPipeline_call "nat option" "nat option"
| SDL_UploadToGPUBuffer_call nat
| SDL_DrawGPUPrimitives_call nat
| SDL_SubmitGPUCommandBuffer_call nat
| Backend_call string

text \<open>\<^verbatim>\<open>SDL_Fail\<close> logs the last error and returns \<^verbatim>\<open>SDL_APP_FAILURE\<close>.\<close>

definition SDL_Fail :: "backend_call list \<Rightarrow> SDL_AppResult \<times> backend_call list" where
  "SDL_Fail tr = (SDL_APP_FAILURE, tr @ [SDL_LogError_call])"

section \<open>SDL\_AppInit\<close>

text \<open>
  What the libraries answer during initialisation. A pointer result is an option (\<open>None\<close>
  is \<^verbatim>\<open>NULL\<close>), an audio device id is a number (0 is failure). \<^verbatim>\<open>LoadShader\<close> and
  \<^verbatim>\<open>LoadImage\<close> are helpers of \<^verbatim>\<open>common.h\<close>; they answer by asset name, as do the font and
  music loaders.
\<close>

record init_env =
  SDL_Init_ok :: bool
  TTF_Init_ok :: bool
  SDL_CreateWindow_res :: "nat option"
  SDL_GetBasePath_res :: "string option"
  SDL_CreateGPUDevice_res :: "nat option"
  SDL_ClaimWindowForGPUDevice_ok :: bool
  SDL_WindowSupportsGPUPresentMode_res :: "SDL_GPUPresentMode \<Rightarrow> bool"
  LoadShader_res :: "string \<Rightarrow> nat option"
  LoadImage_res :: "string \<Rightarrow> (nat \<times> nat) option"
  TTF_OpenFont_res :: "string \<Rightarrow> nat option"
  SDL_OpenAudioDevice_res :: nat
  Mix_OpenAudio_ok :: bool
  Mix_LoadMUS_res :: "string \<Rightarrow> nat option"
  highdpi :: bool

text \<open>Lines 97 to 111: the present mode asked for.\<close>

definition choose_present_mode :: "(SDL_GPUPresentMode \<Rightarrow> bool) \<Rightarrow> SDL_GPUPresentMode" where
  "choose_present_mode supports =
     (if supports SDL_GPU_PRESENTMODE_IMMEDIATE then SDL_GPU_PRESENTMODE_IMMEDIATE
      else if supports SDL_GPU_PRESENTMODE_MAILBOX then SDL_GPU_PRESENTMODE_MAILBOX
      else SDL_GPU_PRESENTMODE_VSYNC)"

text \<open>The queries of lines 98 to 111: the second is made only when the first fails.\<close>

definition present_mode_queries :: "(SDL_GPUPresentMode \<Rightarrow> bool) \<Rightarrow> backend_call list" where
  "present_mode_queries supports =
     (if supports SDL_GPU_PRESENTMODE_IMMEDIATE
      then [SDL_WindowSupportsGPUPresentMode_call SDL_GPU_PRESENTMODE_IMMEDIATE]
      else [SDL_WindowSupportsGPUPresentMode_call SDL_GPU_PRESENTMODE_IMMEDIATE,
            SDL_WindowSupportsGPUPresentMode_call SDL_GPU_PRESENTMODE_MAILBOX])"

text \<open>
  Lines 97 to 174: the present mode, the swapchain parameters, the seed, the two shaders
  and the pipeline. No result of the calls from \<^verbatim>\<open>SDL_SetGPUSwapchainParameters\<close> on is
  tested.
\<close>

definition init_gpu_calls :: "init_env \<Rightarrow> backend_call list" where
  "init_gpu_calls env =
     present_mode_queries (SDL_WindowSupportsGPUPresentMode_res env) @
     [SDL_SetGPUSwapchainParameters_call
        (choose_present_mode (SDL_WindowSupportsGPUPresentMode_res env)),
      SDL_srand_call 0,
      LoadShader_call ''PullSpriteBatch.vert'',
      LoadShader_call ''TexturedQuadColor.frag'',
      Backend_call ''SDL_GetGPUSwapchainTextureFormat'',
      SDL_CreateGPUGraphicsPipeline_call
        (LoadShader_res env ''PullSpriteBatch.vert'') (LoadShader_res env ''TexturedQuadColor.frag''),
      Backend_call ''SDL_ReleaseGPUShader'',
      Backend_call ''SDL_ReleaseGPUShader'']"

text \<open>Lines 184 to 279: the texture and the two sprite buffers are created and the atlas uploaded.\<close>

definition init_resource_calls :: "backend_call list" where
  "init_resource_calls =
     map Backend_call
       [''SDL_CreateGPUTransferBuffer'', ''SDL_MapGPUTransferBuffer'', ''SDL_memcpy'',
        ''SDL_UnmapGPUTransferBuffer'', ''SDL_CreateGPUTexture'', ''SDL_CreateGPUSampler'',
        ''SDL_CreateGPUTransferBuffer'', ''SDL_CreateGPUBuffer'', ''SDL_AcquireGPUCommandBuffer'',
        ''SDL_BeginGPUCopyPass'', ''SDL_UploadToGPUTexture'', ''SDL_EndGPUCopyPass'',
        ''SDL_SubmitGPUCommandBuffer'', ''SDL_DestroySurface'', ''SDL_ReleaseGPUTransferBuffer'']"

text \<open>Lines 291 to 301: the text is rendered and dropped, the SVG is loaded and never used.\<close>

definition init_font_calls :: "backend_call list" where
  "init_font_calls =
     map Backend_call
       [''TTF_RenderText_Solid'', ''TTF_CloseFont'', ''SDL_DestroySurface'', ''IMG_Load'']"

text \<open>Lines 334 to 363.\<close>

definition init_final_calls :: "init_env \<Rightarrow> backend_call list" where
  "init_final_calls env =
     [Backend_call ''Mix_PlayMusic'', Backend_call ''SDL_ShowWindow'',
      Backend_call ''SDL_GetWindowSize'', Backend_call ''SDL_GetWindowSizeInPixels'',
      SDL_Log_call ''Window size: %ix%i'', SDL_Log_call ''Backbuffer size: %ix%i''] @
     (if highdpi env then [SDL_Log_call ''This is a highdpi environment.''] else []) @
     [SDL_Log_call ''Application started successfully!'']"

text \<open>
  \<^verbatim>\<open>SDL_AppInit\<close>: the result, the trace, and the application state when one was made.
  Every \<^verbatim>\<open>return SDL_Fail()\<close> of the source is a branch here, in the source's order;
  \<open>t1\<close>, \<open>t2\<close>, ... are the calls made so far.
\<close>

definition SDL_AppInit :: "init_env \<Rightarrow> (SDL_AppResult \<times> backend_call list) \<times> AppContext option" where
  "SDL_AppInit env =
     (let t1 = [Backend_call ''SDL_Init''] in
      if \<not> SDL_Init_ok env then (SDL_Fail t1, None)
      else
      let t2 = t1 @ [Backend_call ''TTF_Init''] in
      if \<not> TTF_Init_ok env then (SDL_Fail t2, None)
      else
      let t3 = t2 @ [SDL_CreateWindow_call windowStartWidth windowStartHeight] in
      (case SDL_CreateWindow_res env of
        None \<Rightarrow> (SDL_Fail t3, None)
      | Some win \<Rightarrow>
      let t4 = t3 @ [Backend_call ''SDL_GetBasePath''] in
      (case SDL_GetBasePath_res env of
        None \<Rightarrow> (SDL_Fail t4, None)
      | Some basePath \<Rightarrow>
      let t5 = t4 @ [Backend_call ''SDL_CreateGPUDevice''] in
      (case SDL_CreateGPUDevice_res env of
        None \<Rightarrow> (SDL_Fail (t5 @ [SDL_Log_call ''GPUCreateDevice failed'']), None)
      | Some dev \<Rightarrow>
      let t6 = t5 @ [Backend_call ''SDL_ClaimWindowForGPUDevice''] in
      if \<not> SDL_ClaimWindowForGPUDevice_ok env
      then (SDL_Fail (t6 @ [SDL_Log_call ''GPUClaimWindow failed'']), None)
      else
      let t7 = t6 @ init_gpu_calls env @ [Backend_call ''LoadImage''] in
      (case LoadImage_res env ''ravioli_atlas.bmp'' of
        None \<Rightarrow> (SDL_Fail (t7 @ [SDL_Log_call ''Could not load image data!'']), None)
      | Some imageData \<Rightarrow>
      let t8 = t7 @ init_resource_calls @ [Backend_call ''TTF_OpenFont''] in
      (case TTF_OpenFont_res env ''Inter-VariableFont.ttf'' of
        None \<Rightarrow> (SDL_Fail t8, None)
      | Some font \<Rightarrow>
      let t9 = t8 @ init_font_calls @ [Backend_call ''SDL_OpenAudioDevice''] in
      if SDL_OpenAudioDevice_res env = 0 then (SDL_Fail t9, None)
      else
      let t10 = t9 @ [Backend_call ''Mix_OpenAudio''] in
      if \<not> Mix_OpenAudio_ok env then (SDL_Fail t10, None)
      else
      let t11 = t10 @ [Backend_call ''Mix_LoadMUS''] in
      (case Mix_LoadMUS_res env ''the_entertainer.ogg'' of
        None \<Rightarrow> (SDL_Fail t11, None)
      | Some mus \<Rightarrow>
          ((SDL_APP_CONTINUE, t11 @ init_final_calls env),
           Some \<lparr>window = win, device = dev,
                 audioDevice = SDL_OpenAudioDevice_res env, music = mus,
                 app_quit = SDL_APP_CONTINUE\<rparr>))))))))"

section \<open>SDL\_AppEvent\<close>

text \<open>An event, as far as the program reads it: its \<^verbatim>\<open>type\<close> field, a \<^verbatim>\<open>Uint32\<close>.\<close>

record SDL_Event =
  event_type :: nat

text \<open>\<^verbatim>\<open>SDL_EVENT_QUIT\<close> is \<^verbatim>\<open>0x100\<close> in SDL's headers.\<close>

definition SDL_EVENT_QUIT :: nat where
  "SDL_EVENT_QUIT = 256"

definition SDL_AppEvent :: "AppContext \<Rightarrow> SDL_Event \<Rightarrow> SDL_AppResult \<times> AppContext" where
  "SDL_AppEvent ctx ev =
     (SDL_APP_CONTINUE,
      if event_type ev = SDL_EVENT_QUIT then ctx\<lparr>app_quit := SDL_APP_SUCCESS\<rparr> else ctx)"

section \<open>SDL\_AppIterate\<close>

text \<open>
  The state that an iteration reads or writes: the application state, the generator,
  the memory of \<^verbatim>\<open>SpriteDataTransferBuffer\<close>, the contents of \<^verbatim>\<open>SpriteDataBuffer\<close>, the
  trace, and the logical size of the window, which the user can change since the window
  is made with \<^verbatim>\<open>SDL_WINDOW_RESIZABLE\<close>.
\<close>

record 'g machine =
  app :: AppContext
  rng :: 'g
  transfer :: "nat \<Rightarrow> SpriteInstance"
  gpu_buffer :: "SpriteInstance list"
  window_w :: int
  window_h :: int
  calls :: "backend_call list"

text \<open>
  What the backend answers during one iteration: the command buffer (\<open>None\<close> is
  \<^verbatim>\<open>NULL\<close>); whether the swapchain texture was acquired, and the texture, which may be
  \<^verbatim>\<open>NULL\<close> on success; and the memory that \<^verbatim>\<open>SDL_MapGPUTransferBuffer\<close> hands out.
  The buffer is mapped with \<^verbatim>\<open>cycle = true\<close>, so SDL may hand out fresh memory of
  unspecified contents (\<open>Some\<close>) instead of the memory written last time (\<open>None\<close>).
\<close>

datatype swapchain_result = Acquire_failed | Acquired "nat option"

record frame_backend =
  SDL_AcquireGPUCommandBuffer_res :: "nat option"
  SDL_WaitAndAcquireGPUSwapchainTexture_res :: swapchain_result
  cycled_memory :: "(nat \<Rightarrow> SpriteInstance) option"

definition SDL_MapGPUTransferBuffer :: "frame_backend \<Rightarrow> 'g machine \<Rightarrow> nat \<Rightarrow> SpriteInstance" where
  "SDL_MapGPUTransferBuffer fb mc = (case cycled_memory fb of None \<Rightarrow> transfer mc | Some mem \<Rightarrow> mem)"

text \<open>The calls of lines 384 to 406, before the texture is looked at.\<close>

definition acquire_calls :: "backend_call list" where
  "acquire_calls =
     [Backend_call ''SDL_GetTicks'', Backend_call ''SDL_AcquireGPUCommandBuffer'',
      Backend_call ''SDL_WaitAndAcquireGPUSwapchainTexture'']"

text \<open>
  The calls of lines 414 to 509 around the loop: the buffer is mapped and unmapped,
  \<open>SPRITE_COUNT\<close> records are uploaded from offset 0, and six vertices are drawn for
  each record.
\<close>

definition build_calls :: "backend_call list" where
  "build_calls =
     [Backend_call ''SDL_MapGPUTransferBuffer'', Backend_call ''SDL_UnmapGPUTransferBuffer'',
      Backend_call ''SDL_BeginGPUCopyPass'', SDL_UploadToGPUBuffer_call SPRITE_COUNT,
      Backend_call ''SDL_EndGPUCopyPass'', Backend_call ''SDL_BeginGPURenderPass'',
      Backend_call ''SDL_BindGPUGraphicsPipeline'', Backend_call ''SDL_BindGPUVertexStorageBuffers'',
      Backend_call ''SDL_BindGPUFragmentSamplers'', Backend_call ''SDL_PushGPUVertexUniformData'',
      SDL_DrawGPUPrimitives_call (SPRITE_COUNT * 6), Backend_call ''SDL_EndGPURenderPass'']"

text \<open>
  \<^verbatim>\<open>SDL_AppIterate\<close>. The result is \<open>None\<close> when the build loop reads outside
  \<^verbatim>\<open>uCoords\<close> or \<^verbatim>\<open>vCoords\<close>. The clear colour computed from the clock is never used
  and is left out, as is the camera matrix, a constant. The mapping of the transfer
  buffer, whose result the source does not test, is taken to succeed.
\<close>

definition SDL_AppIterate ::
  "'g sdl_random \<Rightarrow> frame_backend \<Rightarrow> 'g machine \<Rightarrow> (SDL_AppResult \<times> 'g machine) option" where
  "SDL_AppIterate R fb mc =
     (case SDL_AcquireGPUCommandBuffer_res fb of
        None \<Rightarrow>
          (case SDL_Fail (calls mc @
                  [Backend_call ''SDL_GetTicks'', Backend_call ''SDL_AcquireGPUCommandBuffer'',
                   SDL_Log_call ''AcquireGPUCommandBuffer failed: %s'']) of
             (res, tr) \<Rightarrow> Some (res, mc\<lparr>calls := tr\<rparr>))
      | Some cmdBuf \<Rightarrow>
          (case SDL_WaitAndAcquireGPUSwapchainTexture_res fb of
             Acquire_failed \<Rightarrow>
               (case SDL_Fail (calls mc @ acquire_calls @
                       [SDL_Log_call ''WaitAndAcquireGPUSwapchainTexture failed: %s'']) of
                  (res, tr) \<Rightarrow> Some (res, mc\<lparr>calls := tr\<rparr>))
           | Acquired None \<Rightarrow>
               Some (app_quit (app mc),
                     mc\<lparr>calls := calls mc @ acquire_calls @
                          [SDL_SubmitGPUCommandBuffer_call cmdBuf]\<rparr>)
           | Acquired (Some swapchainTexture) \<Rightarrow>
               (case build_loop R 0 (rng mc) (SDL_MapGPUTransferBuffer fb mc) of
                  None \<Rightarrow> None
                | Some (gen', mem') \<Rightarrow>
                    Some (app_quit (app mc),
                          mc\<lparr>rng := gen',
                             transfer := mem',
                             gpu_buffer := sprite_array mem',
                             calls := calls mc @ acquire_calls @ build_calls @
                               [SDL_SubmitGPUCommandBuffer_call cmdBuf]\<rparr>))))"

text \<open>Whether an iteration gets as far as the build loop.\<close>

definition builds :: "frame_backend \<Rightarrow> bool" where
  "builds fb \<longleftrightarrow>
     (case (SDL_AcquireGPUCommandBuffer_res fb, SDL_WaitAndAcquireGPUSwapchainTexture_res fb) of
        (Some cmdBuf, Acquired (Some tex)) \<Rightarrow> True
      | _ \<Rightarrow> False)"

text \<open>Whether the two backend calls that the iteration checks both succeed.\<close>

definition backend_ok :: "frame_backend \<Rightarrow> bool" where
  "backend_ok fb \<longleftrightarrow>
     (case (SDL_AcquireGPUCommandBuffer_res fb, SDL_WaitAndAcquireGPUSwapchainTexture_res fb) of
        (Some cmdBuf, Acquired tex) \<Rightarrow> True
      | _ \<Rightarrow> False)"

section \<open>Runs\<close>

text \<open>
  SDL calls \<^verbatim>\<open>SDL_AppEvent\<close> for each event and \<^verbatim>\<open>SDL_AppIterate\<close> for each frame. A run
  is any sequence of the two; its result is the list of the values returned and the
  final state.
\<close>

datatype callback = Event SDL_Event | Frame frame_backend

fun run :: "'g sdl_random \<Rightarrow> callback list \<Rightarrow> 'g machine \<Rightarrow> (SDL_AppResult list \<times> 'g machine) option" where
  "run R [] mc = Some ([], mc)"
| "run R (Event ev # cs) mc =
     (case SDL_AppEvent (app mc) ev of
        (res, ctx) \<Rightarrow>
          (case run R cs (mc\<lparr>app := ctx\<rparr>) of
             None \<Rightarrow> None
           | Some (rs, mc') \<Rightarrow> Some (res # rs, mc')))"
| "run R (Frame fb # cs) mc =
     (case SDL_AppIterate R fb mc of
        None \<Rightarrow> None
      | Some (res, mc1) \<Rightarrow>
          (case run R cs mc1 of
             None \<Rightarrow> None
           | Some (rs, mc') \<Rightarrow> Some (res # rs, mc')))"

text \<open>Whether a quit event is among the callbacks.\<close>

fun quit_seen :: "callback list \<Rightarrow> bool" where
  "quit_seen [] = False"
| "quit_seen (Event ev # cs) = (event_type ev = SDL_EVENT_QUIT \<or> quit_seen cs)"
| "quit_seen (Frame fb # cs) = quit_seen cs"

text \<open>
  The sprite arrays of a sequence of frames: for each frame that runs the build loop,
  the array that it uploads.
\<close>

fun sprite_arrays :: "'g sdl_random \<Rightarrow> frame_backend list \<Rightarrow> 'g machine \<Rightarrow> SpriteInstance list list option" where
  "sprite_arrays R [] mc = Some []"
| "sprite_arrays R (fb # fbs) mc =
     (case SDL_AppIterate R fb mc of
        None \<Rightarrow> None
      | Some (res, mc1) \<Rightarrow>
          (case sprite_arrays R fbs mc1 of
             None \<Rightarrow> None
           | Some arrays \<Rightarrow> Some ((if builds fb then [gpu_buffer mc1] else []) @ arrays)))"

text \<open>
  The draws of a sequence of frames, frame by frame: those of the loop when the frame
  runs it, none otherwise.
\<close>

fun run_draws ::
  "'g sdl_random \<Rightarrow> frame_backend list \<Rightarrow> 'g machine \<Rightarrow> (int \<times> int \<times> int \<times> f32) list list" where
  "run_draws R [] mc = []"
| "run_draws R (fb # fbs) mc =
     (if builds fb then frame_draws R (rng mc) else []) #
     (case SDL_AppIterate R fb mc of
        None \<Rightarrow> []
      | Some (res, mc1) \<Rightarrow> run_draws R fbs mc1)"

text \<open>
  The state in which a successful \<^verbatim>\<open>SDL_AppInit\<close> leaves the program: the application
  state and the trace are those of \<open>SDL_AppInit\<close>; the generator is as
  \<^verbatim>\<open>SDL_srand(0)\<close> of line 120 left it, given the reading \<open>counter\<close> of the
  performance counter; the window has the size asked for in line 62; the two sprite
  buffers, new and never written, hold whatever memory \<open>mem\<close> and \<open>buf\<close> they were given.
\<close>

definition after_init ::
  "'g sdl_random \<Rightarrow> init_env \<Rightarrow> nat \<Rightarrow> (nat \<Rightarrow> SpriteInstance) \<Rightarrow> SpriteInstance list \<Rightarrow>
     'g machine option" where
  "after_init R env counter mem buf =
     (case SDL_AppInit env of
        ((res, tr), None) \<Rightarrow> None
      | ((res, tr), Some ctx) \<Rightarrow>
          Some \<lparr>app = ctx, rng = SDL_srand R 0 counter, transfer = mem, gpu_buffer = buf,
                window_w = windowStartWidth, window_h = windowStartHeight, calls = tr\<rparr>)"

text \<open>Two records that agree in the fourteen fields other than the padding.\<close>

definition same_assigned :: "SpriteInstance \<Rightarrow> SpriteInstance \<Rightarrow> bool" where
  "same_assigned s1 s2 \<longleftrightarrow>
     x s1 = x s2 \<and> y s1 = y s2 \<and> z s1 = z s2 \<and> rotation s1 = rotation s2 \<and>
     w s1 = w s2 \<and> h s1 = h s2 \<and>
     tex_u s1 = tex_u s2 \<and> tex_v s1 = tex_v s2 \<and> tex_w s1 = tex_w s2 \<and> tex_h s1 = tex_h s2 \<and>
     r s1 = r s2 \<and> g s1 = g s2 \<and> b s1 = b s2 \<and> a s1 = a s2"

text \<open>The array that one iteration leaves in \<^verbatim>\<open>SpriteDataBuffer\<close>.\<close>

definition frame_array :: "'g sdl_random \<Rightarrow> frame_backend \<Rightarrow> 'g machine \<Rightarrow> SpriteInstance list" where
  "frame_array R fb mc =
     (case SDL_AppIterate R fb mc of None \<Rightarrow> [] | Some (res, mc') \<Rightarrow> gpu_buffer mc')"

section \<open>Concrete inputs\<close>

text \<open>A record of zeros, and the same record with a 7 in its first padding field.\<close>

definition blank_sprite :: SpriteInstance where
  "blank_sprite =
     \<lparr>x = F32 0 0, y = F32 0 0, z = F32 0 0, rotation = F32 0 0, w = F32 0 0, h = F32 0 0,
      padding_a = F32 0 0, padding_b = F32 0 0,
      tex_u = F32 0 0, tex_v = F32 0 0, tex_w = F32 0 0, tex_h = F32 0 0,
      r = F32 0 0, g = F32 0 0, b = F32 0 0, a = F32 0 0\<rparr>"

definition marked_sprite :: SpriteInstance where
  "marked_sprite = blank_sprite\<lparr>padding_a := F32 7 0\<rparr>"

text \<open>A frame whose backend calls succeed with a texture, and one that gets no texture.\<close>

definition frame_ok :: frame_backend where
  "frame_ok =
     \<lparr>SDL_AcquireGPUCommandBuffer_res = Some 1,
      SDL_WaitAndAcquireGPUSwapchainTexture_res = Acquired (Some 2),
      cycled_memory = None\<rparr>"

definition frame_no_texture :: frame_backend where
  "frame_no_texture =
     \<lparr>SDL_AcquireGPUCommandBuffer_res = Some 1,
      SDL_WaitAndAcquireGPUSwapchainTexture_res = Acquired None,
      cycled_memory = None\<rparr>"

text \<open>The event that asks the program to quit.\<close>

definition quit_event :: SDL_Event where
  "quit_event = \<lparr>event_type = SDL_EVENT_QUIT\<rparr>"

text \<open>
  An environment in which every call of the initialisation succeeds. The window
  supports the mailbox present mode only.
\<close>

definition env_ok :: init_env where
  "env_ok =
     \<lparr>SDL_Init_ok = True, TTF_Init_ok = True, SDL_CreateWindow_res = Some 1,
      SDL_GetBasePath_res = Some ''/app/'', SDL_CreateGPUDevice_res = Some 2,
      SDL_ClaimWindowForGPUDevice_ok = True,
      SDL_WindowSupportsGPUPresentMode_res = (\<lambda>pm. pm = SDL_GPU_PRESENTMODE_MAILBOX),
      LoadShader_res = (\<lambda>name. Some 5),
      LoadImage_res = (\<lambda>name. Some (64, 64)),
      TTF_OpenFont_res = (\<lambda>name. Some 6),
      SDL_OpenAudioDevice_res = 3, Mix_OpenAudio_ok = True,
      Mix_LoadMUS_res = (\<lambda>name. Some 4), highdpi = False\<rparr>"

text \<open>The same environment without the vertex shader's file.\<close>

definition env_missing_shader :: init_env where
  "env_missing_shader =
     env_ok\<lparr>LoadShader_res := (\<lambda>name. if name = ''PullSpriteBatch.vert'' then None else Some 5)\<rparr>"

text \<open>
  The state after \<open>env_ok\<close>: the generator is the linear congruential one in state 1,
  the transfer buffer holds zeros, the window has its first size.
\<close>

definition machine0 :: "nat machine" where
  "machine0 =
     \<lparr>app = \<lparr>window = 1, device = 2, audioDevice = 3, music = 4, app_quit = SDL_APP_CONTINUE\<rparr>,
      rng = 1, transfer = (\<lambda>i. blank_sprite), gpu_buffer = [],
      window_w = windowStartWidth, window_h = windowStartHeight, calls = []\<rparr>"

text \<open>The same state after the user has made the window smaller.\<close>

definition machine_resized :: "nat machine" where
  "machine_resized = machine0\<lparr>window_w := 320, window_h := 240\<rparr>"

text \<open>The same state with other contents in the transfer buffer's padding.\<close>

definition machine_marked :: "nat machine" where
  "machine_marked = machine0\<lparr>transfer := (\<lambda>i. marked_sprite)\<rparr>"

text \<open>
  The two memories, and the states that \<open>after_init\<close> makes of them in \<open>env_ok\<close> when
  the counter reads 1.
\<close>

definition blank_memory :: "nat \<Rightarrow> SpriteInstance" where
  "blank_memory = (\<lambda>i. blank_sprite)"

definition marked_memory :: "nat \<Rightarrow> SpriteInstance" where
  "marked_memory = (\<lambda>i. marked_sprite)"

definition boot_blank :: "nat machine" where
  "boot_blank = machine0\<lparr>calls := snd (fst (SDL_AppInit env_ok))\<rparr>"

definition boot_marked :: "nat machine" where
  "boot_marked = machine_marked\<lparr>calls := snd (fst (SDL_AppInit env_ok))\<rparr>"

section \<open>Facts about the floats\<close>

lemma valf_powi: "valf (F32 m e) = of_int m * 2 powi e"
  by (simp add: power_int_def field_simps)

lemma valf_nonneg: "0 \<le> mant f \<Longrightarrow> 0 \<le> valf f"
  by (cases f) (simp add: valf_powi del: valf.simps)

lemma f32_of_int_small: "\<bar>n\<bar> < 2 ^ 24 \<Longrightarrow> f32_of_int n = F32 n 0"
proof -
  assume "\<bar>n\<bar> < 2 ^ 24"
  then have "bitlen \<bar>n\<bar> \<le> 24"
    by (simp add: bitlen_le_iff_power)
  then show ?thesis
    by (simp add: f32_of_int_def round_f32_def Let_def)
qed

text \<open>
  When \<open>s > 0\<close> bits are dropped from a mantissa \<open>m\<close>, the mantissa kept is within half a
  unit of \<open>m / 2 ^ s\<close>.
\<close>

lemma round_half_even_near:
  fixes m :: int
  assumes "0 < s"
  shows "2 * \<bar>(if 2 ^ (s - 1) < m mod 2 ^ s \<or> (m mod 2 ^ s = 2 ^ (s - 1) \<and> odd (m div 2 ^ s))
               then m div 2 ^ s + 1 else m div 2 ^ s) * 2 ^ s - m\<bar> \<le> 2 ^ s"
proof -
  define q where "q = m div 2 ^ s"
  define rest where "rest = m mod 2 ^ s"
  define half :: int where "half = 2 ^ (s - 1)"
  have pow: "(2::int) ^ s = 2 * half"
    using assms by (cases s) (simp_all add: half_def)
  have split: "m = q * (2 * half) + rest"
    unfolding q_def rest_def pow [symmetric] by (rule div_mult_mod_eq [symmetric])
  have range: "0 \<le> rest" "rest < 2 * half"
    unfolding rest_def pow [symmetric] by simp_all
  have up: "2 * \<bar>(q + 1) * (2 * half) - m\<bar> \<le> 2 * half" if "half \<le> rest"
  proof -
    have "(q + 1) * (2 * half) - m = 2 * half - rest"
      using split by (simp add: algebra_simps)
    then show ?thesis using that range by simp
  qed
  have down: "2 * \<bar>q * (2 * half) - m\<bar> \<le> 2 * half" if "rest \<le> half"
  proof -
    have "q * (2 * half) - m = - rest"
      using split by simp
    then show ?thesis using that range by simp
  qed
  have "2 * \<bar>(if half < rest \<or> (rest = half \<and> odd q) then q + 1 else q) * (2 * half) - m\<bar> \<le> 2 * half"
    using up down by (cases "half < rest \<or> (rest = half \<and> odd q)") auto
  then show ?thesis
    unfolding q_def rest_def half_def [symmetric] pow .
qed

text \<open>The two branches of \<open>round_f32\<close> on a mantissa that is not negative.\<close>

lemma round_f32_exact:
  assumes "0 \<le> m" and "max (bitlen m - 24) (- 149 - e) \<le> 0"
  shows "round_f32 m e = F32 m e"
  using assms by (simp only: round_f32_def Let_def abs_of_nonneg if_True)

lemma round_f32_drop:
  assumes "0 \<le> m" and "max (bitlen m - 24) (- 149 - e) = int s" and "0 < s"
  shows "round_f32 m e =
     (let k = (if 2 ^ (s - 1) < m mod 2 ^ s \<or> (m mod 2 ^ s = 2 ^ (s - 1) \<and> odd (m div 2 ^ s))
               then m div 2 ^ s + 1 else m div 2 ^ s)
      in if k = 2 ^ 24 then F32 (sgn m * 2 ^ 23) (e + int s + 1) else F32 (sgn m * k) (e + int s))"
proof -
  have "\<not> int s \<le> 0"
    using assms(3) by simp
  then show ?thesis
    by (simp only: round_f32_def Let_def abs_of_nonneg [OF assms(1)] assms(2) nat_int if_False)
qed

text \<open>
  The rounded number is a binary32 with a mantissa \<open>k\<close> of at most 24 bits (or \<open>2 ^ 24\<close>
  itself) at the quantum \<open>2 ^ (e + s)\<close>, and \<open>k\<close> is within half a unit of \<open>m / 2 ^ s\<close>.
\<close>

lemma round_f32_near:
  assumes m0: "0 \<le> m" and s: "s = nat (max (bitlen m - 24) (- 149 - e))"
  shows "is_f32 (round_f32 m e) \<and> 0 \<le> mant (round_f32 m e) \<and>
         (\<exists>k. 0 \<le> k \<and> k \<le> 2 ^ 24 \<and> valf (round_f32 m e) = of_int k * 2 powi (e + int s) \<and>
             2 * \<bar>k * 2 ^ s - m\<bar> \<le> 2 ^ s)"
proof -
  define d where "d = max (bitlen m - 24) (- 149 - e)"
  have d1: "bitlen m - 24 \<le> d" and d2: "- 149 - e \<le> d"
    by (simp_all add: d_def)
  have sd: "s = nat d"
    using s by (simp add: d_def)
  show ?thesis
  proof (cases "d \<le> 0")
    case True
    then have "bitlen m \<le> 24"
      using d1 by linarith
    then have "m < 2 ^ 24"
      using bitlen_le_iff_power [of m 24] by simp
    moreover have "round_f32 m e = F32 m e"
      using True m0 unfolding d_def by (intro round_f32_exact)
    moreover have "s = 0"
      using True sd by simp
    moreover have "- 149 \<le> e"
      using True d2 by linarith
    ultimately show ?thesis
      using m0 by (intro conjI exI [of _ m]) (simp_all add: valf_powi del: valf.simps)
  next
    case False
    then have spos: "0 < s" and sint: "d = int s"
      using sd by simp_all
    define q where "q = m div 2 ^ s"
    define k where "k = (if 2 ^ (s - 1) < m mod 2 ^ s \<or> (m mod 2 ^ s = 2 ^ (s - 1) \<and> odd q) then q + 1 else q)"
    have "bitlen m \<le> int s + 24"
      using sint d1 by linarith
    then have "m < 2 ^ (s + 24)"
      using bitlen_le_iff_power [of m "int s + 24"] by (simp add: nat_add_distrib)
    then have "m < 2 ^ 24 * 2 ^ s"
      by (simp add: power_add mult.commute)
    moreover have "q * 2 ^ s \<le> m"
    proof -
      have "0 \<le> m mod 2 ^ s" by simp
      moreover have "m div 2 ^ s * 2 ^ s + m mod 2 ^ s = m" by (rule div_mult_mod_eq)
      ultimately show ?thesis unfolding q_def by linarith
    qed
    ultimately have "q * 2 ^ s < 2 ^ 24 * 2 ^ s"
      by linarith
    then have qlt: "q < 2 ^ 24"
      by simp
    have q0: "0 \<le> q"
      unfolding q_def using m0 by (simp add: pos_imp_zdiv_nonneg_iff)
    have k0: "0 \<le> k" and k24: "k \<le> 2 ^ 24"
      using q0 qlt by (simp_all add: k_def)
    have near: "2 * \<bar>k * 2 ^ s - m\<bar> \<le> 2 ^ s"
      unfolding k_def q_def by (rule round_half_even_near [OF spos])
    have rnd: "round_f32 m e =
        (if k = 2 ^ 24 then F32 (sgn m * 2 ^ 23) (e + int s + 1) else F32 (sgn m * k) (e + int s))"
      using round_f32_drop [OF m0 sint [unfolded d_def] spos] by (simp add: Let_def k_def q_def)
    have sg: "sgn m * k = k"
    proof (cases "m = 0")
      case True
      then show ?thesis using spos by (simp add: k_def q_def)
    next
      case False
      then show ?thesis using m0 by simp
    qed
    have val: "valf (round_f32 m e) = of_int k * 2 powi (e + int s)"
    proof (cases "k = 2 ^ 24")
      case True
      then have "m \<noteq> 0" using spos by (auto simp: k_def q_def)
      then have "sgn m = 1" using m0 by simp
      then have "valf (round_f32 m e) = 2 ^ 23 * 2 powi (e + int s + 1)"
        using rnd True by (simp add: valf_powi del: valf.simps)
      also have "\<dots> = 2 ^ 24 * 2 powi (e + int s)"
        by (simp add: power_int_add)
      finally show ?thesis using True by simp
    next
      case False
      then show ?thesis using rnd sg by (simp add: valf_powi del: valf.simps)
    qed
    have "- 149 \<le> e + int s"
      using d2 sint by linarith
    then have "is_f32 (round_f32 m e)" and "0 \<le> mant (round_f32 m e)"
      using rnd sg k0 k24 m0 by (simp_all add: sgn_if)
    then show ?thesis
      using k0 k24 val near by blast
  qed
qed

lemma round_f32_error:
  assumes "0 \<le> m" and "s = nat (max (bitlen m - 24) (- 149 - e))"
  shows "valf (round_f32 m e) \<le> of_int m * 2 powi e + 2 powi (e + int s) / 2"
proof -
  obtain k where val: "valf (round_f32 m e) = of_int k * 2 powi (e + int s)"
    and near: "2 * \<bar>k * 2 ^ s - m\<bar> \<le> 2 ^ s"
    using round_f32_near [OF assms] by blast
  have "2 * (k * 2 ^ s - m) \<le> 2 ^ s"
  proof -
    define u where "u = k * 2 ^ s - m"
    define v :: int where "v = 2 ^ s"
    have "2 * \<bar>u\<bar> \<le> v"
      using near by (simp add: u_def v_def)
    then have "2 * u \<le> v"
      by linarith
    then show ?thesis
      by (simp add: u_def v_def)
  qed
  then have "of_int (2 * (k * 2 ^ s - m)) \<le> (of_int (2 ^ s) :: real)"
    by (simp only: of_int_le_iff)
  then have "real_of_int k * 2 ^ s \<le> of_int m + 2 ^ s / 2"
    by simp
  then have "real_of_int k * 2 ^ s * 2 powi e \<le> (of_int m + 2 ^ s / 2) * 2 powi e"
    by (intro mult_right_mono) simp_all
  moreover have "(2 :: real) powi (e + int s) = 2 ^ s * 2 powi e"
    by (simp add: power_int_add)
  ultimately show ?thesis
    unfolding val by (simp add: algebra_simps)
qed

text \<open>The largest binary32 below 1 is \<open>1 - 2 ^ - 24\<close>.\<close>

lemma f32_below_one:
  assumes "is_f32 f" and "valf f < 1"
  shows "valf f \<le> 1 - 1 / 2 ^ 24"
proof (cases f)
  case (F32 m e)
  have v: "valf f = of_int m * 2 powi e"
    unfolding F32 by (rule valf_powi)
  have m24: "m < 2 ^ 24"
    using assms(1) F32 by auto
  show ?thesis
  proof (cases "- 24 \<le> e")
    case True
    have "of_int m * 2 powi e * 2 powi 24 < 1 * (2 powi 24 :: real)"
      using assms(2) v by (intro mult_strict_right_mono) simp_all
    then have "of_int m * (2 :: real) powi (e + 24) < 2 ^ 24"
      by (simp add: power_int_add)
    then have "real_of_int (m * 2 ^ nat (e + 24)) < of_int (2 ^ 24)"
      using True by (simp add: power_int_nonneg_exp)
    then have "m * 2 ^ nat (e + 24) < 2 ^ 24"
      by (simp only: of_int_less_iff)
    then have "m * 2 ^ nat (e + 24) \<le> 2 ^ 24 - 1"
      by simp
    then have "real_of_int (m * 2 ^ nat (e + 24)) \<le> of_int (2 ^ 24 - 1)"
      by (simp only: of_int_le_iff)
    then have "of_int m * (2 :: real) powi (e + 24) \<le> 2 ^ 24 - 1"
      using True by (simp add: power_int_nonneg_exp)
    then have "valf f * 2 ^ 24 \<le> 2 ^ 24 - 1"
      unfolding v by (simp add: power_int_add)
    then show ?thesis
      by (simp add: field_simps)
  next
    case False
    show ?thesis
    proof (cases "0 \<le> m")
      case True
      have "(2 :: real) powi e \<le> 2 powi (- 25)"
        using False by (intro power_int_increasing) simp_all
      then have "of_int m * (2 :: real) powi e \<le> 2 ^ 24 * 2 powi (- 25)"
        using m24 True by (intro mult_mono) simp_all
      then show ?thesis
        unfolding v by (simp add: power_int_minus)
    next
      case False
      then have "of_int m * (2 :: real) powi e \<le> 0"
        by (simp add: mult_le_0_iff)
      then show ?thesis
        unfolding v by simp
    qed
  qed
qed

text \<open>Multiplying a binary32 by 2 is exact.\<close>

lemma fmul_two:
  assumes "is_f32 f" and "0 \<le> mant f"
  shows "valf (fmul f (f32_of_int 2)) = 2 * valf f"
proof (cases f)
  case (F32 m e)
  have m0: "0 \<le> m" and m24: "m < 2 ^ 24" and e149: "- 149 \<le> e"
    using assms F32 by auto
  have two: "f32_of_int 2 = F32 2 0"
    by (rule f32_of_int_small) simp
  have prod: "fmul (F32 m e) (f32_of_int 2) = round_f32 (m * 2) e"
    unfolding two by simp
  have "m * 2 < 2 ^ 25"
    using m24 by simp
  then have b25: "bitlen (m * 2) \<le> 25"
    using bitlen_le_iff_power [of "m * 2" 25] by simp
  show ?thesis
  proof (cases "bitlen (m * 2) \<le> 24")
    case True
    then have "round_f32 (m * 2) e = F32 (m * 2) e"
      using e149 m0 by (intro round_f32_exact) simp_all
    then show ?thesis
      unfolding F32 prod by (simp add: valf_powi del: valf.simps)
  next
    case False
    then have "bitlen (m * 2) = 25"
      using b25 by linarith
    then have mpos: "0 < m" and d: "max (bitlen (m * 2) - 24) (- 149 - e) = int 1"
      using m0 e149 by (auto simp: less_le)
    have "round_f32 (m * 2) e = F32 m (e + 1)"
      using round_f32_drop [OF _ d] mpos m24 by simp
    then show ?thesis
      unfolding F32 prod by (simp add: valf_powi power_int_add del: valf.simps)
  qed
qed

lemma SDL_PI_F_repr: "is_f32 SDL_PI_F" "valf SDL_PI_F = 13176795 / 4194304"
  by (simp_all add: SDL_PI_F_def)

text \<open>
  A float below 1 times \<^verbatim>\<open>SDL_PI_F\<close> is at most the float just below \<^verbatim>\<open>SDL_PI_F\<close>:
  the exact product is at most \<open>(1 - 2 ^ - 24) * 13176795 / 2 ^ 22\<close>, which rounds down.
\<close>

lemma fmul_pi_bound:
  assumes f: "is_f32 f" and f0: "0 \<le> valf f" and f1: "valf f < 1"
  shows "is_f32 (fmul f SDL_PI_F) \<and> 0 \<le> mant (fmul f SDL_PI_F) \<and>
         valf (fmul f SDL_PI_F) \<le> 13176794 / 4194304"
proof (cases f)
  case (F32 mf ef)
  have v: "valf f = of_int mf * 2 powi ef"
    unfolding F32 by (rule valf_powi)
  have mf0: "0 \<le> mf"
  proof (rule ccontr)
    assume "\<not> 0 \<le> mf"
    then have "of_int mf * (2 :: real) powi ef < 0"
      by (simp add: mult_less_0_iff)
    then show False using f0 v by simp
  qed
  define m where "m = mf * 13176795"
  define e where "e = ef - 22"
  define s where "s = nat (max (bitlen m - 24) (- 149 - e))"
  define t where "t = e + int s"
  have m0: "0 \<le> m"
    using mf0 by (simp add: m_def)
  have prod: "fmul f SDL_PI_F = round_f32 m e"
    unfolding F32 SDL_PI_F_def m_def e_def by simp
  have rep: "is_f32 (round_f32 m e)" "0 \<le> mant (round_f32 m e)"
    using round_f32_near [OF m0 s_def] by simp_all
  obtain k where k24: "k \<le> 2 ^ 24" and k0: "0 \<le> k"
    and val: "valf (round_f32 m e) = of_int k * 2 powi t"
    using round_f32_near [OF m0 s_def] unfolding t_def by blast
  have err: "valf (round_f32 m e) \<le> of_int m * 2 powi e + 2 powi t / 2"
    using round_f32_error [OF m0 s_def] unfolding t_def .
  have exact: "real_of_int m * 2 powi e = valf f * (13176795 / 4194304)"
    unfolding v m_def e_def by (simp add: power_int_diff)
  have exact_le: "real_of_int m * 2 powi e \<le> (1 - 1 / 2 ^ 24) * (13176795 / 4194304)"
    unfolding exact using f32_below_one [OF f f1] by (intro mult_right_mono) simp_all
  have bound: "valf (round_f32 m e) \<le> 13176794 / 4194304"
  proof (cases "mf = 0")
    case True
    then have "m = 0"
      by (simp add: m_def)
    then have "round_f32 m e = (if - 149 - e \<le> 0 then F32 0 e else F32 0 (e + (- 149 - e)))"
      by (simp add: round_f32_def Let_def)
    then show ?thesis
      by (simp add: valf_powi del: valf.simps)
  next
    case False
    then have mfpos: "1 \<le> mf"
      using mf0 by simp
    have "(2 :: real) powi ef \<le> of_int mf * 2 powi ef"
      using mfpos by simp
    moreover have "of_int mf * (2 :: real) powi ef < 1"
      using f1 v by simp
    ultimately have "(2 :: real) powi ef < 1"
      by linarith
    then have "(2 :: real) powi ef < 2 powi 0"
      by simp
    then have ef: "ef < 0"
      using power_int_le_imp_less_exp [of "2 :: real" ef 0] by simp
    have mpos: "0 < m"
      using mfpos by (simp add: m_def)
    have t22: "t \<le> - 22"
    proof (cases "max (bitlen m - 24) (- 149 - e) \<le> 0")
      case True
      then have "s = 0" by (simp add: s_def)
      then show ?thesis using ef by (simp add: t_def e_def)
    next
      case False
      show ?thesis
      proof (cases "bitlen m - 24 \<le> - 149 - e")
        case True
        then have "int s = - 149 - e"
          using False by (simp add: s_def max_def)
        then show ?thesis by (simp add: t_def)
      next
        case ge: False
        then have s: "int s = bitlen m - 24"
          using False by (simp add: s_def max_def)
        have "2 ^ nat (bitlen m - 1) \<le> m"
          using bitlen_bounds [OF mpos] by simp
        then have "real_of_int (2 ^ nat (bitlen m - 1)) \<le> of_int m"
          by (simp only: of_int_le_iff)
        moreover have "1 \<le> bitlen m"
          using mpos bitlen_eq_zero_iff [of m] bitlen_nonneg [of m] by linarith
        ultimately have "(2 :: real) powi (bitlen m - 1) \<le> of_int m"
          by (simp add: power_int_nonneg_exp)
        then have "(2 :: real) powi (bitlen m - 1) * 2 powi e \<le> of_int m * 2 powi e"
          by (intro mult_right_mono) simp_all
        also have "\<dots> < 2 powi 2"
          using exact_le by simp
        finally have "(2 :: real) powi (bitlen m - 1 + e) < 2 powi 2"
          by (simp add: power_int_add)
        then have "bitlen m - 1 + e < 2"
          using power_int_le_imp_less_exp [of "2 :: real" "bitlen m - 1 + e" 2] by simp
        then show ?thesis
          using s by (simp add: t_def)
      qed
    qed
    show ?thesis
    proof (cases "t = - 22")
      case True
      have "real_of_int k / 4194304 \<le> (1 - 1 / 2 ^ 24) * (13176795 / 4194304) + 1 / 4194304 / 2"
        using err exact_le unfolding val True by (simp add: power_int_minus_divide)
      then have "real_of_int k < 13176795"
        by simp
      then have "k < 13176795"
        by linarith
      then have "real_of_int k \<le> 13176794"
        by linarith
      then show ?thesis
        unfolding val True by (simp add: power_int_minus_divide)
    next
      case False
      then have "t \<le> - 23"
        using t22 by simp
      then have "(2 :: real) powi t \<le> 2 powi (- 23)"
        by (intro power_int_increasing) simp_all
      moreover have "real_of_int k \<le> 2 ^ 24"
        using k24 by (metis of_int_le_iff of_int_numeral of_int_power)
      ultimately have "real_of_int k * 2 powi t \<le> 2 ^ 24 * 2 powi (- 23)"
        using k0 by (intro mult_mono) simp_all
      then show ?thesis
        unfolding val by (simp add: power_int_minus_divide)
    qed
  qed
  show ?thesis
    unfolding prod using rep bound by simp
qed

text \<open>A lower bound of pi from Machin's formula and the series of the arc tangent.\<close>

lemma arctan_partial_sums:
  fixes t :: real
  assumes t0: "0 \<le> t" and t1: "t \<le> 1"
  shows "(\<Sum>i<2 * n. (- 1) ^ i * (1 / real (i * 2 + 1) * t ^ (i * 2 + 1))) \<le> arctan t"
    and "arctan t \<le> (\<Sum>i<2 * n + 1. (- 1) ^ i * (1 / real (i * 2 + 1) * t ^ (i * 2 + 1)))"
proof -
  define c where "c = (\<lambda>i. 1 / real (i * 2 + 1) * t ^ (i * 2 + 1))"
  have lim: "c \<longlonglongrightarrow> 0"
    unfolding c_def using zeroseq_arctan_series [of t] t0 t1 by simp
  have pos: "0 \<le> c i" for i
    unfolding c_def using t0 by simp
  have dec: "c (Suc i) \<le> c i" for i
  proof -
    have "t ^ (Suc i * 2 + 1) \<le> t ^ (i * 2 + 1)"
      using t0 t1 by (intro power_decreasing) simp_all
    moreover have "1 / real (Suc i * 2 + 1) \<le> 1 / real (i * 2 + 1)"
      by (intro frac_le) simp_all
    ultimately show ?thesis
      unfolding c_def using t0 by (intro mult_mono) simp_all
  qed
  have ser: "arctan t = (\<Sum>i. (- 1) ^ i * c i)"
    unfolding c_def using arctan_series [of t] t0 t1 by simp
  have "(\<Sum>i<2 * n. (- 1) ^ i * c i) \<le> (\<Sum>i. (- 1) ^ i * c i)"
    by (rule summable_Leibniz'(2) [OF lim pos dec])
  then show "(\<Sum>i<2 * n. (- 1) ^ i * (1 / real (i * 2 + 1) * t ^ (i * 2 + 1))) \<le> arctan t"
    by (simp only: ser c_def)
  have "(\<Sum>i. (- 1) ^ i * c i) \<le> (\<Sum>i<2 * n + 1. (- 1) ^ i * c i)"
    by (rule summable_Leibniz'(4) [OF lim pos dec])
  then show "arctan t \<le> (\<Sum>i<2 * n + 1. (- 1) ^ i * (1 / real (i * 2 + 1) * t ^ (i * 2 + 1)))"
    by (simp only: ser c_def)
qed

lemma pi_lower_bound: "(13176794 :: real) / 4194304 < pi"
proof -
  have lo: "(\<Sum>i<2 * 3. (- 1) ^ i * (1 / real (i * 2 + 1) * (1 / 5) ^ (i * 2 + 1))) \<le> arctan (1 / 5 :: real)"
    by (rule arctan_partial_sums(1)) simp_all
  have hi: "arctan (1 / 239 :: real) \<le> (\<Sum>i<2 * 1 + 1. (- 1) ^ i * (1 / real (i * 2 + 1) * (1 / 239) ^ (i * 2 + 1)))"
    by (rule arctan_partial_sums(2)) simp_all
  have six: "{..<2 * 3} = {0, 1, 2, 3, 4, 5 :: nat}" by auto
  have three: "{..<2 * 1 + 1} = {0, 1, 2 :: nat}" by auto
  have lo': "(6679449362 :: real) / 33837890625 \<le> arctan (1 / 5)"
    using lo unfolding six by (simp add: power_numeral_reduce)
  have hi': "arctan (1 / 239 :: real) \<le> 1 / 239 - 1 / (3 * 239 ^ 3) + 1 / (5 * 239 ^ 5)"
    using hi unfolding three by (simp add: power_numeral_reduce)
  have "pi = 16 * arctan (1 / 5) - 4 * arctan (1 / 239)"
    using machin by simp
  moreover have "(1 :: real) / 239 - 1 / (3 * 239 ^ 3) + 1 / (5 * 239 ^ 5) < 41841 / 10000000"
    by (simp add: power_numeral_reduce)
  ultimately show ?thesis using lo' hi' by linarith
qed

text \<open>The rotation \<^verbatim>\<open>SDL_randf() * SDL_PI_F * 2\<close> of a draw below 1.\<close>

lemma rotation_range:
  assumes "is_f32 f" and "0 \<le> valf f" and "valf f < 1"
  shows "0 \<le> valf (fmul (fmul f SDL_PI_F) (f32_of_int 2))"
    and "valf (fmul (fmul f SDL_PI_F) (f32_of_int 2)) < 2 * pi"
proof -
  have p: "is_f32 (fmul f SDL_PI_F)" "0 \<le> mant (fmul f SDL_PI_F)"
    "valf (fmul f SDL_PI_F) \<le> 13176794 / 4194304"
    using fmul_pi_bound [OF assms] by simp_all
  have twice: "valf (fmul (fmul f SDL_PI_F) (f32_of_int 2)) = 2 * valf (fmul f SDL_PI_F)"
    by (rule fmul_two [OF p(1) p(2)])
  show "0 \<le> valf (fmul (fmul f SDL_PI_F) (f32_of_int 2))"
    unfolding twice using valf_nonneg [OF p(2)] by simp
  show "valf (fmul (fmul f SDL_PI_F) (f32_of_int 2)) < 2 * pi"
    unfolding twice using p(3) pi_lower_bound by linarith
qed

section \<open>Facts about the generator\<close>

lemma int_div_less:
  fixes n :: int
  assumes "0 < d" and "n < k * d"
  shows "n div d < k"
proof -
  have "0 \<le> n mod d"
    using assms(1) by simp
  moreover have "n div d * d + n mod d = n"
    by (rule div_mult_mod_eq)
  ultimately have "n div d * d < k * d"
    using assms(2) by linarith
  then show ?thesis
    using assms(1) by simp
qed

lemma lcg_next_bound: "lcg_next st div 2 ^ 32 < 2 ^ 32"
  by (simp add: lcg_next_def div_less_iff_less_mult)

lemma lcg_contract: "rng_contract lcg"
proof -
  have r: "0 \<le> int (lcg_next st div 2 ^ 32) * n div 2 ^ 32 \<and>
           int (lcg_next st div 2 ^ 32) * n div 2 ^ 32 < n" if "0 < n" for st n
  proof -
    define bits where "bits = int (lcg_next st div 2 ^ 32)"
    have b: "0 \<le> bits" "bits < 2 ^ 32"
      using lcg_next_bound [of st] by (simp_all add: bits_def)
    have "bits * n < n * 2 ^ 32"
      using b that by simp
    then have "bits * n div 2 ^ 32 < n"
      by (intro int_div_less) simp_all
    moreover have "0 \<le> bits * n div 2 ^ 32"
      using b that by (simp add: pos_imp_zdiv_nonneg_iff)
    ultimately show ?thesis
      unfolding bits_def by simp
  qed
  have f: "lcg_next st div 2 ^ 32 div 2 ^ 8 < 2 ^ 24" for st
    using lcg_next_bound [of st] by (simp add: div_less_iff_less_mult)
  have "real (lcg_next st div 2 ^ 32 div 2 ^ 8) < 2 ^ 24" for st
    using f [of st] by (metis of_nat_less_iff of_nat_numeral of_nat_power)
  then show ?thesis
    using r f by (simp add: rng_contract_def lcg_def)
qed

section \<open>Facts about the build loop\<close>

declare build_loop.simps [simp del]

lemma array_read_coords:
  assumes "0 \<le> q" and "q < 4"
  shows "array_read uCoords q = Some (uCoords ! nat q)"
    and "array_read vCoords q = Some (vCoords ! nat q)"
  using assms by (simp_all add: array_read_def uCoords_def vCoords_def)

text \<open>With a generator that keeps its contract, the body of the loop has a result.\<close>

lemma write_sprite_total:
  assumes "rng_contract R"
  shows "\<exists>s'. write_sprite R gen s = Some (advance R gen, s')"
proof -
  have "0 \<le> fst (SDL_rand R 4 gen)" "fst (SDL_rand R 4 gen) < 4"
    using assms by (simp_all add: rng_contract_def)
  then show ?thesis
    by (simp add: write_sprite_def advance_def array_read_coords split_beta)
qed

lemma write_sprite_state:
  "write_sprite R gen s = Some (gen', s') \<Longrightarrow> gen' = advance R gen"
  by (auto simp: write_sprite_def advance_def split_beta split: option.splits)

lemma write_sprite_padding:
  "write_sprite R gen s = Some (gen', s') \<Longrightarrow>
     padding_a s' = padding_a s \<and> padding_b s' = padding_b s"
  by (auto simp: write_sprite_def split_beta split: option.splits)

lemma write_sprite_same_assigned:
  "write_sprite R gen s1 = Some (gen1, s1') \<Longrightarrow> write_sprite R gen s2 = Some (gen2, s2') \<Longrightarrow>
     same_assigned s1' s2'"
  by (auto simp: write_sprite_def same_assigned_def split_beta split: option.splits)

lemma write_sprite_constants:
  "write_sprite R gen s = Some (gen', s') \<Longrightarrow>
     z s' = F32 0 0 \<and> w s' = F32 32 0 \<and> h s' = F32 32 0 \<and>
     tex_w s' = F32 1 (- 1) \<and> tex_h s' = F32 1 (- 1) \<and>
     r s' = F32 1 0 \<and> g s' = F32 1 0 \<and> b s' = F32 1 0 \<and> a s' = F32 1 0"
  by (auto simp: write_sprite_def f32_of_int_small split_beta split: option.splits)

lemma write_sprite_quadrant:
  assumes "write_sprite R gen s = Some (gen', s')"
  shows "\<exists>q < length uCoords. q < length vCoords \<and> int q = fst (SDL_rand R 4 gen) \<and>
           tex_u s' = uCoords ! q \<and> tex_v s' = vCoords ! q"
proof -
  define q where "q = fst (SDL_rand R 4 gen)"
  have "array_read uCoords q \<noteq> None" "array_read vCoords q \<noteq> None"
    using assms by (auto simp: write_sprite_def q_def split_beta split: option.splits)
  then have range: "0 \<le> q" "q < int (length uCoords)" "q < int (length vCoords)"
    by (auto simp: array_read_def split: if_splits)
  have "tex_u s' = uCoords ! nat q" "tex_v s' = vCoords ! nat q"
    using assms range
    by (auto simp: write_sprite_def q_def array_read_def split_beta split: option.splits)
  then show ?thesis
    using range by (intro exI [of _ "nat q"]) (simp add: q_def nat_less_iff)
qed

lemma write_sprite_position:
  assumes "rng_contract R" and "write_sprite R gen s = Some (gen', s')"
  shows "0 \<le> valf (x s') \<and> valf (x s') < 640 \<and> 0 \<le> valf (y s') \<and> valf (y s') < 480"
proof -
  define px where "px = fst (SDL_rand R 640 (snd (SDL_rand R 4 gen)))"
  define py where "py = fst (SDL_rand R 480 (snd (SDL_rand R 640 (snd (SDL_rand R 4 gen)))))"
  have px: "0 \<le> px" "px < 640" and py: "0 \<le> py" "py < 480"
    using assms(1) by (simp_all add: rng_contract_def px_def py_def)
  have "x s' = f32_of_int px" "y s' = f32_of_int py"
    using assms(2) by (auto simp: write_sprite_def px_def py_def split_beta split: option.splits)
  then have "x s' = F32 px 0" "y s' = F32 py 0"
    using px py by (simp_all add: f32_of_int_small)
  then show ?thesis
    using px py by simp
qed

lemma write_sprite_rotation:
  assumes "rng_contract R" and "write_sprite R gen s = Some (gen', s')"
  shows "0 \<le> valf (rotation s') \<and> valf (rotation s') < 2 * pi"
proof -
  define rf where
    "rf = fst (SDL_randf R (snd (SDL_rand R 480 (snd (SDL_rand R 640 (snd (SDL_rand R 4 gen)))))))"
  have rf: "is_f32 rf" "0 \<le> valf rf" "valf rf < 1"
    using assms(1) by (simp_all add: rng_contract_def rf_def)
  have "rotation s' = fmul (fmul rf SDL_PI_F) (f32_of_int 2)"
    using assms(2) by (auto simp: write_sprite_def rf_def split_beta split: option.splits)
  then show ?thesis
    using rotation_range [OF rf] by simp
qed

text \<open>
  The loop from \<open>i\<close> on: it ends, the generator has advanced once per slot, the slots
  from \<open>i\<close> to \<open>SPRITE_COUNT - 1\<close> hold what the body made of them, each from the
  generator state of its turn, and every other slot is as it was.
\<close>

lemma build_loop_from:
  "rng_contract R \<Longrightarrow> i \<le> SPRITE_COUNT \<Longrightarrow>
    \<exists>mem'. build_loop R i gen mem = Some ((advance R ^^ (SPRITE_COUNT - i)) gen, mem') \<and>
      (\<forall>j. i \<le> j \<and> j < SPRITE_COUNT \<longrightarrow>
         write_sprite R ((advance R ^^ (j - i)) gen) (mem j) =
           Some ((advance R ^^ Suc (j - i)) gen, mem' j)) \<and>
      (\<forall>j. j < i \<or> SPRITE_COUNT \<le> j \<longrightarrow> mem' j = mem j)"
proof (induction R i gen mem rule: build_loop.induct)
  case (1 R i gen dataPtr)
  show ?case
  proof (cases "i < SPRITE_COUNT")
    case False
    then have "i = SPRITE_COUNT"
      using "1.prems"(2) by simp
    then show ?thesis
      by (subst build_loop.simps) auto
  next
    case True
    obtain s where body: "write_sprite R gen (dataPtr i) = Some (advance R gen, s)"
      using write_sprite_total [OF "1.prems"(1)] by blast
    have "Suc i \<le> SPRITE_COUNT"
      using True by simp
    then have "i + 1 \<le> SPRITE_COUNT"
      by simp
    from "1.IH" [OF True body refl "1.prems"(1) this] obtain mem' where
      rest: "build_loop R (i + 1) (advance R gen) (dataPtr(i := s)) =
               Some ((advance R ^^ (SPRITE_COUNT - (i + 1))) (advance R gen), mem')"
      and filled: "\<forall>j. i + 1 \<le> j \<and> j < SPRITE_COUNT \<longrightarrow>
         write_sprite R ((advance R ^^ (j - (i + 1))) (advance R gen)) ((dataPtr(i := s)) j) =
           Some ((advance R ^^ Suc (j - (i + 1))) (advance R gen), mem' j)"
      and kept: "\<forall>j. j < i + 1 \<or> SPRITE_COUNT \<le> j \<longrightarrow> mem' j = (dataPtr(i := s)) j"
      by blast
    have shift: "(advance R ^^ n) (advance R gen) = (advance R ^^ Suc n) gen" for n
      by (simp add: funpow_swap1)
    have count: "Suc (SPRITE_COUNT - (i + 1)) = SPRITE_COUNT - i"
      using True by simp
    have final: "(advance R ^^ (SPRITE_COUNT - (i + 1))) (advance R gen) =
        (advance R ^^ (SPRITE_COUNT - i)) gen"
      by (simp only: shift count)
    have result: "build_loop R i gen dataPtr = Some ((advance R ^^ (SPRITE_COUNT - i)) gen, mem')"
      using True body rest unfolding final by (subst build_loop.simps) simp
    have slots: "write_sprite R ((advance R ^^ (j - i)) gen) (dataPtr j) =
        Some ((advance R ^^ Suc (j - i)) gen, mem' j)" if "i \<le> j" "j < SPRITE_COUNT" for j
    proof (cases "j = i")
      case True
      then show ?thesis
        using body kept [rule_format, of i] by simp
    next
      case False
      then have "i + 1 \<le> j" and "Suc (j - (i + 1)) = j - i"
        using that by simp_all
      then show ?thesis
        using filled [rule_format, of j] that False by (simp add: shift)
    qed
    have others: "mem' j = dataPtr j" if "j < i \<or> SPRITE_COUNT \<le> j" for j
      using kept [rule_format, of j] that True by auto
    show ?thesis
      using result slots others by blast
  qed
qed

lemma build_loop_all:
  assumes "rng_contract R"
  shows "\<exists>mem'. build_loop R 0 gen mem = Some ((advance R ^^ SPRITE_COUNT) gen, mem') \<and>
      (\<forall>j < SPRITE_COUNT.
         write_sprite R ((advance R ^^ j) gen) (mem j) = Some ((advance R ^^ Suc j) gen, mem' j)) \<and>
      (\<forall>j \<ge> SPRITE_COUNT. mem' j = mem j)"
  using build_loop_from [OF assms, of 0 gen mem] by simp

lemma sprite_array_nth: "j < SPRITE_COUNT \<Longrightarrow> sprite_array mem ! j = mem j"
  by (simp add: sprite_array_def)

lemma sprite_array_length: "length (sprite_array mem) = SPRITE_COUNT"
  by (simp add: sprite_array_def)

lemma sprite_array_set: "s \<in> set (sprite_array mem) \<Longrightarrow> \<exists>j < SPRITE_COUNT. s = mem j"
  by (auto simp: sprite_array_def)

text \<open>An iteration that runs the loop.\<close>

lemma iterate_builds:
  assumes "rng_contract R" and "builds fb"
  shows "\<exists>cmdBuf mem'.
      SDL_AcquireGPUCommandBuffer_res fb = Some cmdBuf \<and>
      SDL_AppIterate R fb mc =
        Some (app_quit (app mc),
              mc\<lparr>rng := (advance R ^^ SPRITE_COUNT) (rng mc),
                 transfer := mem',
                 gpu_buffer := sprite_array mem',
                 calls := calls mc @ acquire_calls @ build_calls @
                   [SDL_SubmitGPUCommandBuffer_call cmdBuf]\<rparr>) \<and>
      (\<forall>j < SPRITE_COUNT.
         write_sprite R ((advance R ^^ j) (rng mc)) (SDL_MapGPUTransferBuffer fb mc j) =
           Some ((advance R ^^ Suc j) (rng mc), mem' j)) \<and>
      (\<forall>j \<ge> SPRITE_COUNT. mem' j = SDL_MapGPUTransferBuffer fb mc j)"
proof -
  obtain cmdBuf tex where fb: "SDL_AcquireGPUCommandBuffer_res fb = Some cmdBuf"
    "SDL_WaitAndAcquireGPUSwapchainTexture_res fb = Acquired (Some tex)"
    using assms(2) by (auto simp: builds_def split: option.splits swapchain_result.splits)
  obtain mem' where
    loop: "build_loop R 0 (rng mc) (SDL_MapGPUTransferBuffer fb mc) =
             Some ((advance R ^^ SPRITE_COUNT) (rng mc), mem')"
    and slots: "\<forall>j < SPRITE_COUNT.
         write_sprite R ((advance R ^^ j) (rng mc)) (SDL_MapGPUTransferBuffer fb mc j) =
           Some ((advance R ^^ Suc j) (rng mc), mem' j)"
    and others: "\<forall>j \<ge> SPRITE_COUNT. mem' j = SDL_MapGPUTransferBuffer fb mc j"
    using build_loop_all [OF assms(1)] by blast
  have "SDL_AppIterate R fb mc =
        Some (app_quit (app mc),
              mc\<lparr>rng := (advance R ^^ SPRITE_COUNT) (rng mc),
                 transfer := mem',
                 gpu_buffer := sprite_array mem',
                 calls := calls mc @ acquire_calls @ build_calls @
                   [SDL_SubmitGPUCommandBuffer_call cmdBuf]\<rparr>)"
    by (simp add: SDL_AppIterate_def fb loop)
  then show ?thesis
    using fb(1) slots others by blast
qed

text \<open>An iteration that does not run the loop leaves the generator and the buffers alone.\<close>

lemma iterate_skips:
  assumes "\<not> builds fb"
  shows "\<exists>res mc'. SDL_AppIterate R fb mc = Some (res, mc') \<and> app mc' = app mc \<and>
           rng mc' = rng mc \<and> transfer mc' = transfer mc \<and> gpu_buffer mc' = gpu_buffer mc"
  using assms
  by (auto simp: SDL_AppIterate_def builds_def SDL_Fail_def
      split: option.splits swapchain_result.splits)

lemma iterate_total:
  assumes "rng_contract R"
  shows "\<exists>res mc'. SDL_AppIterate R fb mc = Some (res, mc') \<and> app mc' = app mc \<and>
           (backend_ok fb \<longrightarrow> res = app_quit (app mc))"
proof (cases "builds fb")
  case True
  then show ?thesis
    using iterate_builds [OF assms True, of mc] by auto
next
  case False
  then show ?thesis
    by (auto simp: SDL_AppIterate_def builds_def backend_ok_def SDL_Fail_def
        split: option.splits swapchain_result.splits)
qed

section \<open>Facts about runs\<close>

lemma run_append:
  "run R (cs @ ds) mc =
     (case run R cs mc of
        None \<Rightarrow> None
      | Some (rs, mc1) \<Rightarrow>
          (case run R ds mc1 of None \<Rightarrow> None | Some (rs', mc2) \<Rightarrow> Some (rs @ rs', mc2)))"
  by (induction R cs mc rule: run.induct) (auto split: option.splits prod.splits)

text \<open>
  A run only changes \<^verbatim>\<open>app_quit\<close> at a quit event, and then to \<^verbatim>\<open>SDL_APP_SUCCESS\<close>.
\<close>

lemma run_app_quit:
  assumes "rng_contract R"
  shows "\<exists>rs mc'. run R cs mc = Some (rs, mc') \<and>
           app_quit (app mc') = (if quit_seen cs then SDL_APP_SUCCESS else app_quit (app mc))"
proof (induction cs arbitrary: mc)
  case Nil
  then show ?case by simp
next
  case (Cons c cs)
  show ?case
  proof (cases c)
    case (Event ev)
    obtain rs mc' where
      "run R cs (mc\<lparr>app := snd (SDL_AppEvent (app mc) ev)\<rparr>) = Some (rs, mc')"
      "app_quit (app mc') =
         (if quit_seen cs then SDL_APP_SUCCESS
          else app_quit (app (mc\<lparr>app := snd (SDL_AppEvent (app mc) ev)\<rparr>)))"
      using Cons.IH by blast
    then show ?thesis
      unfolding Event by (auto simp: SDL_AppEvent_def split: prod.splits)
  next
    case (Frame fb)
    obtain res mc1 where it: "SDL_AppIterate R fb mc = Some (res, mc1)" "app mc1 = app mc"
      using iterate_total [OF assms] by blast
    obtain rs mc' where
      "run R cs mc1 = Some (rs, mc')"
      "app_quit (app mc') = (if quit_seen cs then SDL_APP_SUCCESS else app_quit (app mc1))"
      using Cons.IH by blast
    then show ?thesis
      unfolding Frame using it by simp
  qed
qed

section \<open>Facts about the initialisation\<close>

lemma init_app_quit:
  "SDL_AppInit env = (outcome, Some ctx) \<Longrightarrow> app_quit ctx = SDL_APP_CONTINUE"
  by (auto simp: SDL_AppInit_def SDL_Fail_def Let_def split: if_splits option.splits)

text \<open>The loads that are tested: a missing image, font or music file ends in \<^verbatim>\<open>SDL_Fail\<close>.\<close>

lemma init_missing_asset_fails:
  assumes "LoadImage_res env ''ravioli_atlas.bmp'' = None \<or>
           TTF_OpenFont_res env ''Inter-VariableFont.ttf'' = None \<or>
           Mix_LoadMUS_res env ''the_entertainer.ogg'' = None"
  shows "fst (fst (SDL_AppInit env)) = SDL_APP_FAILURE"
    and "SDL_LogError_call \<in> set (snd (fst (SDL_AppInit env)))"
  using assms
  by (auto simp: SDL_AppInit_def SDL_Fail_def Let_def split: option.splits)

text \<open>The calls of an initialisation that succeeds.\<close>

lemma init_success_trace:
  assumes "fst (fst (SDL_AppInit env)) = SDL_APP_CONTINUE"
  shows "snd (fst (SDL_AppInit env)) =
     [Backend_call ''SDL_Init'', Backend_call ''TTF_Init'',
      SDL_CreateWindow_call windowStartWidth windowStartHeight,
      Backend_call ''SDL_GetBasePath'', Backend_call ''SDL_CreateGPUDevice'',
      Backend_call ''SDL_ClaimWindowForGPUDevice''] @
     init_gpu_calls env @ [Backend_call ''LoadImage''] @
     init_resource_calls @ [Backend_call ''TTF_OpenFont''] @
     init_font_calls @
     [Backend_call ''SDL_OpenAudioDevice'', Backend_call ''Mix_OpenAudio'',
      Backend_call ''Mix_LoadMUS''] @
     init_final_calls env"
  using assms
  by (simp add: SDL_AppInit_def SDL_Fail_def Let_def split: option.splits if_splits)

text \<open>An initialisation that succeeds has seeded the generator once, with 0.\<close>

lemma init_seeds_once:
  assumes "fst (fst (SDL_AppInit env)) = SDL_APP_CONTINUE"
  shows "count_list (snd (fst (SDL_AppInit env))) (SDL_srand_call seed) = (if seed = 0 then 1 else 0)"
proof -
  have "count_list (init_gpu_calls env) (SDL_srand_call seed) = (if seed = 0 then 1 else 0)"
    by (simp add: init_gpu_calls_def present_mode_queries_def)
  moreover have "count_list init_resource_calls (SDL_srand_call seed) = 0"
    "count_list init_font_calls (SDL_srand_call seed) = 0"
    "count_list (init_final_calls env) (SDL_srand_call seed) = 0"
    by (simp_all add: init_resource_calls_def init_font_calls_def init_final_calls_def)
  ultimately show ?thesis
    unfolding init_success_trace [OF assms] by simp
qed

section \<open>Facts about the concrete inputs\<close>

lemma builds_frame_ok: "builds frame_ok"
  by (simp add: builds_def frame_ok_def)

lemma lcg_first_sprite:
  "fst (SDL_rand lcg 4 1) = 0"
  "fst (SDL_rand lcg 640 (snd (SDL_rand lcg 4 1))) = 635"
  "fst (SDL_rand lcg 480 (snd (SDL_rand lcg 640 (snd (SDL_rand lcg 4 1))))) = 201"
  by (simp_all add: lcg_def lcg_next_def)

text \<open>The x written by the body is the second draw, converted to a float.\<close>

lemma write_sprite_x:
  "write_sprite R gen s = Some (gen', s') \<Longrightarrow>
     x s' = f32_of_int (fst (SDL_rand R 640 (snd (SDL_rand R 4 gen))))"
  by (auto simp: write_sprite_def split_beta split: option.splits)

section \<open>What an iteration that runs the loop leaves behind\<close>

lemma iterate_fill:
  assumes "rng_contract R" and "builds fb"
  shows "\<exists>res mc'. SDL_AppIterate R fb mc = Some (res, mc') \<and>
    gpu_buffer mc' = sprite_array (transfer mc') \<and>
    rng mc' = (advance R ^^ SPRITE_COUNT) (rng mc) \<and>
    (\<forall>i < SPRITE_COUNT.
       write_sprite R ((advance R ^^ i) (rng mc)) (SDL_MapGPUTransferBuffer fb mc i) =
         Some ((advance R ^^ Suc i) (rng mc), transfer mc' i)) \<and>
    (\<forall>i \<ge> SPRITE_COUNT. transfer mc' i = SDL_MapGPUTransferBuffer fb mc i)"
proof -
  obtain cmdBuf mem' where
    it: "SDL_AppIterate R fb mc =
        Some (app_quit (app mc),
              mc\<lparr>rng := (advance R ^^ SPRITE_COUNT) (rng mc),
                 transfer := mem',
                 gpu_buffer := sprite_array mem',
                 calls := calls mc @ acquire_calls @ build_calls @
                   [SDL_SubmitGPUCommandBuffer_call cmdBuf]\<rparr>)"
    and slots: "\<forall>j < SPRITE_COUNT.
         write_sprite R ((advance R ^^ j) (rng mc)) (SDL_MapGPUTransferBuffer fb mc j) =
           Some ((advance R ^^ Suc j) (rng mc), mem' j)"
    and others: "\<forall>j \<ge> SPRITE_COUNT. mem' j = SDL_MapGPUTransferBuffer fb mc j"
    using iterate_builds [OF assms, of mc] by blast
  show ?thesis
    unfolding it using slots others by simp
qed

lemma array_record:
  assumes "gpu_buffer mc' = sprite_array (transfer mc')" and "s \<in> set (gpu_buffer mc')"
  obtains i where "i < SPRITE_COUNT" and "s = transfer mc' i"
  using assms sprite_array_set [of s "transfer mc'"] by auto

text \<open>
  Two iterations that run the loop from the same generator state, on whatever memory:
  the arrays agree in the fourteen assigned fields, and the padding is the memory's.
\<close>

lemma iterate_same_assigned:
  assumes "rng_contract R" and "builds fb1" and "builds fb2" and "rng mc1 = rng mc2"
  shows "\<exists>res1 mc1' res2 mc2'.
      SDL_AppIterate R fb1 mc1 = Some (res1, mc1') \<and>
      SDL_AppIterate R fb2 mc2 = Some (res2, mc2') \<and>
      rng mc1' = rng mc2' \<and>
      gpu_buffer mc1' = sprite_array (transfer mc1') \<and>
      gpu_buffer mc2' = sprite_array (transfer mc2') \<and>
      (\<forall>i < SPRITE_COUNT.
         same_assigned (transfer mc1' i) (transfer mc2' i) \<and>
         padding_a (transfer mc1' i) = padding_a (SDL_MapGPUTransferBuffer fb1 mc1 i) \<and>
         padding_b (transfer mc1' i) = padding_b (SDL_MapGPUTransferBuffer fb1 mc1 i))"
proof -
  obtain res1 mc1' where it1: "SDL_AppIterate R fb1 mc1 = Some (res1, mc1')"
    and arr1: "gpu_buffer mc1' = sprite_array (transfer mc1')"
    and rng1: "rng mc1' = (advance R ^^ SPRITE_COUNT) (rng mc1)"
    and filled1: "\<forall>i < SPRITE_COUNT.
       write_sprite R ((advance R ^^ i) (rng mc1)) (SDL_MapGPUTransferBuffer fb1 mc1 i) =
         Some ((advance R ^^ Suc i) (rng mc1), transfer mc1' i)"
    using iterate_fill [OF assms(1,2), of mc1] by blast
  obtain res2 mc2' where it2: "SDL_AppIterate R fb2 mc2 = Some (res2, mc2')"
    and arr2: "gpu_buffer mc2' = sprite_array (transfer mc2')"
    and rng2: "rng mc2' = (advance R ^^ SPRITE_COUNT) (rng mc2)"
    and filled2: "\<forall>i < SPRITE_COUNT.
       write_sprite R ((advance R ^^ i) (rng mc2)) (SDL_MapGPUTransferBuffer fb2 mc2 i) =
         Some ((advance R ^^ Suc i) (rng mc2), transfer mc2' i)"
    using iterate_fill [OF assms(1,3), of mc2] by blast
  have "same_assigned (transfer mc1' i) (transfer mc2' i) \<and>
        padding_a (transfer mc1' i) = padding_a (SDL_MapGPUTransferBuffer fb1 mc1 i) \<and>
        padding_b (transfer mc1' i) = padding_b (SDL_MapGPUTransferBuffer fb1 mc1 i)"
    if lt: "i < SPRITE_COUNT" for i
    using write_sprite_same_assigned [OF filled1 [rule_format, OF lt]
        filled2 [rule_format, OF lt, folded assms(4)]]
      write_sprite_padding [OF filled1 [rule_format, OF lt]]
    by simp
  then show ?thesis
    using it1 it2 arr1 arr2 rng1 rng2 assms(4) by simp
qed

lemma sprite_array_same_assigned:
  assumes "\<forall>i < SPRITE_COUNT. same_assigned (mem1 i) (mem2 i)"
  shows "list_all2 same_assigned (sprite_array mem1) (sprite_array mem2)"
  using assms by (simp add: list_all2_conv_all_nth sprite_array_length sprite_array_nth)

lemma frame_array_first:
  assumes "rng_contract R" and "builds fb"
  shows "padding_a (frame_array R fb mc ! 0) = padding_a (SDL_MapGPUTransferBuffer fb mc 0)"
proof -
  obtain res mc' where it: "SDL_AppIterate R fb mc = Some (res, mc')"
    and arr: "gpu_buffer mc' = sprite_array (transfer mc')"
    and filled: "\<forall>i < SPRITE_COUNT.
       write_sprite R ((advance R ^^ i) (rng mc)) (SDL_MapGPUTransferBuffer fb mc i) =
         Some ((advance R ^^ Suc i) (rng mc), transfer mc' i)"
    using iterate_fill [OF assms, of mc] by blast
  have first: "0 < SPRITE_COUNT"
    by (simp add: SPRITE_COUNT_def)
  have "frame_array R fb mc ! 0 = transfer mc' 0"
    using it arr first by (simp add: frame_array_def sprite_array_nth)
  then show ?thesis
    using write_sprite_padding [OF filled [rule_format, OF first]] by simp
qed

lemma sprite_arrays_single:
  assumes "rng_contract R" and "builds fb"
  shows "sprite_arrays R [fb] mc = Some [frame_array R fb mc]"
proof -
  obtain res mc' where "SDL_AppIterate R fb mc = Some (res, mc')"
    using iterate_fill [OF assms, of mc] by blast
  then show ?thesis
    using assms(2) by (simp add: frame_array_def)
qed

lemma marked_padding:
  "padding_a (SDL_MapGPUTransferBuffer frame_ok machine_marked 0) = F32 7 0"
  "padding_a (SDL_MapGPUTransferBuffer frame_ok machine0 0) = F32 0 0"
  by (simp_all add: SDL_MapGPUTransferBuffer_def frame_ok_def machine_marked_def machine0_def
      marked_sprite_def blank_sprite_def)

section \<open>Facts about the draws\<close>

text \<open>The record that the body of the loop leaves, written out in terms of the four draws.\<close>

lemma write_sprite_explicit:
  assumes "rng_contract R" and "sprite_draws R gen = (ravioli, px, py, rf)"
  shows "write_sprite R gen s =
     Some (advance R gen,
       s\<lparr>x := f32_of_int px, y := f32_of_int py, z := F32 0 0,
         rotation := fmul (fmul rf SDL_PI_F) (f32_of_int 2),
         w := F32 32 0, h := F32 32 0,
         tex_u := uCoords ! nat ravioli, tex_v := vCoords ! nat ravioli,
         tex_w := F32 1 (- 1), tex_h := F32 1 (- 1),
         r := F32 1 0, g := F32 1 0, b := F32 1 0, a := F32 1 0\<rparr>)"
proof -
  have q: "ravioli = fst (SDL_rand R 4 gen)"
    using assms(2) by (simp add: sprite_draws_def split_beta)
  have "0 \<le> fst (SDL_rand R 4 gen)" "fst (SDL_rand R 4 gen) < 4"
    using assms(1) by (simp_all add: rng_contract_def)
  then show ?thesis
    using assms(2)
    by (auto simp: write_sprite_def sprite_draws_def advance_def array_read_coords
        f32_of_int_small split_beta)
qed

lemma write_sprite_same_draws:
  assumes "write_sprite R gen1 s1 = Some (gen1', s1')"
    and "write_sprite R gen2 s2 = Some (gen2', s2')"
    and "sprite_draws R gen1 = sprite_draws R gen2"
  shows "same_assigned s1' s2'"
  using assms
  by (auto simp: write_sprite_def sprite_draws_def same_assigned_def split_beta
      split: option.splits)

lemma frame_draws_length: "length (frame_draws R gen) = SPRITE_COUNT"
  by (simp add: frame_draws_def)

lemma frame_draws_nth:
  "i < SPRITE_COUNT \<Longrightarrow> frame_draws R gen ! i = sprite_draws R ((advance R ^^ i) gen)"
  by (simp add: frame_draws_def)

lemma frame_draws_not_empty: "frame_draws R gen \<noteq> []"
  using frame_draws_length [of R gen] by (auto simp: SPRITE_COUNT_def)

text \<open>Two iterations that run the loop on the same draws.\<close>

lemma iterate_same_draws:
  assumes "rng_contract R" and "builds fb1" and "builds fb2"
    and "frame_draws R (rng mc1) = frame_draws R (rng mc2)"
  shows "\<exists>res1 mc1' res2 mc2'.
      SDL_AppIterate R fb1 mc1 = Some (res1, mc1') \<and>
      SDL_AppIterate R fb2 mc2 = Some (res2, mc2') \<and>
      list_all2 same_assigned (gpu_buffer mc1') (gpu_buffer mc2')"
proof -
  obtain res1 mc1' where it1: "SDL_AppIterate R fb1 mc1 = Some (res1, mc1')"
    and arr1: "gpu_buffer mc1' = sprite_array (transfer mc1')"
    and filled1: "\<forall>i < SPRITE_COUNT.
       write_sprite R ((advance R ^^ i) (rng mc1)) (SDL_MapGPUTransferBuffer fb1 mc1 i) =
         Some ((advance R ^^ Suc i) (rng mc1), transfer mc1' i)"
    using iterate_fill [OF assms(1,2), of mc1] by blast
  obtain res2 mc2' where it2: "SDL_AppIterate R fb2 mc2 = Some (res2, mc2')"
    and arr2: "gpu_buffer mc2' = sprite_array (transfer mc2')"
    and filled2: "\<forall>i < SPRITE_COUNT.
       write_sprite R ((advance R ^^ i) (rng mc2)) (SDL_MapGPUTransferBuffer fb2 mc2 i) =
         Some ((advance R ^^ Suc i) (rng mc2), transfer mc2' i)"
    using iterate_fill [OF assms(1,3), of mc2] by blast
  have "same_assigned (transfer mc1' i) (transfer mc2' i)" if lt: "i < SPRITE_COUNT" for i
  proof -
    have "sprite_draws R ((advance R ^^ i) (rng mc1)) = sprite_draws R ((advance R ^^ i) (rng mc2))"
      using arg_cong [OF assms(4), of "\<lambda>ds. ds ! i"] by (simp add: frame_draws_nth lt)
    then show ?thesis
      by (rule write_sprite_same_draws [OF filled1 [rule_format, OF lt] filled2 [rule_format, OF lt]])
  qed
  then have "list_all2 same_assigned (gpu_buffer mc1') (gpu_buffer mc2')"
    unfolding arr1 arr2 by (intro sprite_array_same_assigned) simp
  then show ?thesis
    using it1 it2 by blast
qed

text \<open>Runs that make the same draws in each frame upload arrays that agree but for the padding.\<close>

lemma same_draws_same_assigned:
  assumes "rng_contract R"
  shows "run_draws R fbs1 mc1 = run_draws R fbs2 mc2 \<Longrightarrow>
    \<exists>arrays1 arrays2.
      sprite_arrays R fbs1 mc1 = Some arrays1 \<and> sprite_arrays R fbs2 mc2 = Some arrays2 \<and>
      list_all2 (list_all2 same_assigned) arrays1 arrays2"
proof (induction fbs1 arbitrary: fbs2 mc1 mc2)
  case Nil
  then have "fbs2 = []"
    by (cases fbs2) simp_all
  then show ?case
    by simp
next
  case (Cons fb1 fbs1)
  then obtain fb2 rest2 where fbs2: "fbs2 = fb2 # rest2"
    by (cases fbs2) simp_all
  obtain res1 mc1' where it1: "SDL_AppIterate R fb1 mc1 = Some (res1, mc1')"
    using iterate_total [OF assms, of fb1 mc1] by blast
  obtain res2 mc2' where it2: "SDL_AppIterate R fb2 mc2 = Some (res2, mc2')"
    using iterate_total [OF assms, of fb2 mc2] by blast
  have head: "(if builds fb1 then frame_draws R (rng mc1) else []) =
      (if builds fb2 then frame_draws R (rng mc2) else [])"
    and tail: "run_draws R fbs1 mc1' = run_draws R rest2 mc2'"
    using Cons.prems it1 it2 unfolding fbs2 by simp_all
  obtain arrays1 arrays2 where rest:
    "sprite_arrays R fbs1 mc1' = Some arrays1" "sprite_arrays R rest2 mc2' = Some arrays2"
    "list_all2 (list_all2 same_assigned) arrays1 arrays2"
    using Cons.IH [OF tail] by blast
  show ?case
  proof (cases "builds fb1")
    case True
    then have b2: "builds fb2"
      using head frame_draws_not_empty [of R "rng mc1"] by (auto split: if_splits)
    then have "frame_draws R (rng mc1) = frame_draws R (rng mc2)"
      using head True by simp
    then have "list_all2 same_assigned (gpu_buffer mc1') (gpu_buffer mc2')"
      using iterate_same_draws [OF assms True b2, of mc1 mc2] it1 it2 by auto
    then show ?thesis
      unfolding fbs2 using it1 it2 True b2 rest by simp
  next
    case False
    then have "\<not> builds fb2"
      using head frame_draws_not_empty [of R "rng mc2"] by (auto split: if_splits)
    then show ?thesis
      unfolding fbs2 using it1 it2 False rest by simp
  qed
qed

lemma run_draws_single:
  "run_draws R [fb] mc = [if builds fb then frame_draws R (rng mc) else []]"
  by (simp split: option.splits)

section \<open>Facts about the state after the initialisation\<close>

lemma after_init_state:
  assumes "after_init R env counter mem buf = Some mc"
  shows "rng mc = SDL_srand R 0 counter"
    and "calls mc = snd (fst (SDL_AppInit env))"
    and "fst (fst (SDL_AppInit env)) = SDL_APP_CONTINUE"
  using assms
  by (auto simp: after_init_def SDL_AppInit_def SDL_Fail_def Let_def
      split: prod.splits option.splits if_splits)

lemma env_ok_init: "SDL_AppInit env_ok = (fst (SDL_AppInit env_ok), Some (app machine0))"
  by (simp add: env_ok_def SDL_AppInit_def machine0_def Let_def)

lemma after_init_boot:
  "after_init lcg env_ok 1 blank_memory [] = Some boot_blank"
  "after_init lcg env_ok 1 marked_memory [] = Some boot_marked"
proof -
  have init: "SDL_AppInit env_ok =
      ((fst (fst (SDL_AppInit env_ok)), snd (fst (SDL_AppInit env_ok))), Some (app machine0))"
    by (subst env_ok_init) simp
  have split: "after_init lcg env_ok 1 mem [] =
      Some \<lparr>app = app machine0, rng = SDL_srand lcg 0 1, transfer = mem, gpu_buffer = [],
            window_w = windowStartWidth, window_h = windowStartHeight,
            calls = snd (fst (SDL_AppInit env_ok))\<rparr>" for mem
    unfolding after_init_def by (subst init) (simp add: case_prod_beta)
  show "after_init lcg env_ok 1 blank_memory [] = Some boot_blank"
    unfolding split by (simp add: boot_blank_def machine0_def blank_memory_def lcg_def)
  show "after_init lcg env_ok 1 marked_memory [] = Some boot_marked"
    unfolding split
    by (simp add: boot_marked_def machine_marked_def machine0_def marked_memory_def lcg_def)
qed

lemma boot_states:
  "rng boot_blank = 1" "rng boot_marked = 1"
  "padding_a (SDL_MapGPUTransferBuffer frame_ok boot_blank 0) = F32 0 0"
  "padding_a (SDL_MapGPUTransferBuffer frame_ok boot_marked 0) = F32 7 0"
  by (simp_all add: boot_blank_def boot_marked_def machine_marked_def machine0_def
      SDL_MapGPUTransferBuffer_def frame_ok_def marked_sprite_def blank_sprite_def)

text \<open>
  With the seed 0 the draws follow the reading of the counter: in the generator \<open>lcg\<close>
  two readings give two first sprites.
\<close>

lemma lcg_first_draws:
  "sprite_draws lcg (SDL_srand lcg 0 1) = (0, 635, 201, F32 13016045 (- 24))"
  "sprite_draws lcg (SDL_srand lcg 0 2) = (0, 631, 419, F32 5302580 (- 24))"
  by (simp_all add: sprite_draws_def lcg_def lcg_next_def)

section \<open>The claims\<close>

text \<open>
  C1. In every frame in which the build step runs (the command buffer and a swapchain
  texture were acquired), the loop writes a record into each of the \<open>SPRITE_COUNT = 8192\<close>
  slots of the sprite instance array, no fewer and no more: the iteration returns, the
  array uploaded has 8192 records, slot \<open>i\<close> below 8192 holds the mapped memory's record
  with the fourteen fields assigned from the four draws of the \<open>i\<close>-th turn, and the
  mapped memory from slot 8192 on is as it was.
\<close>

theorem C1_every_slot_written:
  assumes "rng_contract R" and "builds fb"
  shows "\<exists>res mc'. SDL_AppIterate R fb mc = Some (res, mc') \<and>
           SPRITE_COUNT = 8192 \<and> length (gpu_buffer mc') = 8192 \<and>
           (\<forall>i < SPRITE_COUNT.
              gpu_buffer mc' ! i = transfer mc' i \<and>
              (case sprite_draws R ((advance R ^^ i) (rng mc)) of
                 (ravioli, px, py, rf) \<Rightarrow>
                   transfer mc' i =
                     (SDL_MapGPUTransferBuffer fb mc i)
                       \<lparr>x := f32_of_int px, y := f32_of_int py, z := F32 0 0,
                        rotation := fmul (fmul rf SDL_PI_F) (f32_of_int 2),
                        w := F32 32 0, h := F32 32 0,
                        tex_u := uCoords ! nat ravioli, tex_v := vCoords ! nat ravioli,
                        tex_w := F32 1 (- 1), tex_h := F32 1 (- 1),
                        r := F32 1 0, g := F32 1 0, b := F32 1 0, a := F32 1 0\<rparr>)) \<and>
           (\<forall>i \<ge> SPRITE_COUNT. transfer mc' i = SDL_MapGPUTransferBuffer fb mc i)"
proof -
  obtain res mc' where it: "SDL_AppIterate R fb mc = Some (res, mc')"
    and arr: "gpu_buffer mc' = sprite_array (transfer mc')"
    and slots: "\<forall>i < SPRITE_COUNT.
       write_sprite R ((advance R ^^ i) (rng mc)) (SDL_MapGPUTransferBuffer fb mc i) =
         Some ((advance R ^^ Suc i) (rng mc), transfer mc' i)"
    and others: "\<forall>i \<ge> SPRITE_COUNT. transfer mc' i = SDL_MapGPUTransferBuffer fb mc i"
    using iterate_fill [OF assms, of mc] by blast
  have count: "SPRITE_COUNT = 8192"
    by (simp add: SPRITE_COUNT_def)
  have len: "length (gpu_buffer mc') = 8192"
    unfolding arr sprite_array_length by (rule count)
  have nth: "\<forall>i < SPRITE_COUNT. gpu_buffer mc' ! i = transfer mc' i"
    unfolding arr by (simp add: sprite_array_nth)
  have written: "case sprite_draws R ((advance R ^^ i) (rng mc)) of
      (ravioli, px, py, rf) \<Rightarrow>
        transfer mc' i =
          (SDL_MapGPUTransferBuffer fb mc i)
            \<lparr>x := f32_of_int px, y := f32_of_int py, z := F32 0 0,
             rotation := fmul (fmul rf SDL_PI_F) (f32_of_int 2),
             w := F32 32 0, h := F32 32 0,
             tex_u := uCoords ! nat ravioli, tex_v := vCoords ! nat ravioli,
             tex_w := F32 1 (- 1), tex_h := F32 1 (- 1),
             r := F32 1 0, g := F32 1 0, b := F32 1 0, a := F32 1 0\<rparr>"
    if lt: "i < SPRITE_COUNT" for i
  proof -
    obtain ravioli px py rf where
      draws: "sprite_draws R ((advance R ^^ i) (rng mc)) = (ravioli, px, py, rf)"
      by (cases "sprite_draws R ((advance R ^^ i) (rng mc))") auto
    show ?thesis
      using slots [rule_format, OF lt]
      unfolding draws write_sprite_explicit [OF assms(1) draws] by simp
  qed
  show ?thesis
    using it count len nth written others by (intro exI [of _ res] exI [of _ mc']) simp
qed

theorem C1_every_slot_written_witness:
  "rng_contract lcg \<and> builds frame_ok \<and> length (frame_array lcg frame_ok machine0) = 8192 \<and>
   x (frame_array lcg frame_ok machine0 ! 0) = F32 635 0 \<and>
   y (frame_array lcg frame_ok machine0 ! 0) = F32 201 0 \<and>
   w (frame_array lcg frame_ok machine0 ! 0) = F32 32 0"
proof -
  obtain res mc' where it: "SDL_AppIterate lcg frame_ok machine0 = Some (res, mc')"
    and len: "length (gpu_buffer mc') = 8192"
    and slots: "\<forall>i < SPRITE_COUNT.
              gpu_buffer mc' ! i = transfer mc' i \<and>
              (case sprite_draws lcg ((advance lcg ^^ i) (rng machine0)) of
                 (ravioli, px, py, rf) \<Rightarrow>
                   transfer mc' i =
                     (SDL_MapGPUTransferBuffer frame_ok machine0 i)
                       \<lparr>x := f32_of_int px, y := f32_of_int py, z := F32 0 0,
                        rotation := fmul (fmul rf SDL_PI_F) (f32_of_int 2),
                        w := F32 32 0, h := F32 32 0,
                        tex_u := uCoords ! nat ravioli, tex_v := vCoords ! nat ravioli,
                        tex_w := F32 1 (- 1), tex_h := F32 1 (- 1),
                        r := F32 1 0, g := F32 1 0, b := F32 1 0, a := F32 1 0\<rparr>)"
    using C1_every_slot_written [OF lcg_contract builds_frame_ok, of machine0] by blast
  have first: "0 < SPRITE_COUNT"
    by (simp add: SPRITE_COUNT_def)
  have draws: "sprite_draws lcg ((advance lcg ^^ 0) (rng machine0)) =
      (0, 635, 201, F32 13016045 (- 24))"
    using lcg_first_draws(1) by (simp add: machine0_def lcg_def)
  have "x (gpu_buffer mc' ! 0) = F32 635 0 \<and> y (gpu_buffer mc' ! 0) = F32 201 0 \<and>
      w (gpu_buffer mc' ! 0) = F32 32 0"
    using slots [rule_format, OF first] unfolding draws by (simp add: f32_of_int_small)
  then show ?thesis
    using it len lcg_contract builds_frame_ok by (simp add: frame_array_def)
qed

text \<open>
  C2. In every record of a filled sprite array, the UV origin \<open>(tex_u, tex_v)\<close> is one of
  the four pairs (0, 0), (0.5, 0), (0, 0.5), (0.5, 0.5), and the UV extent
  \<open>(tex_w, tex_h)\<close> is (0.5, 0.5). The pair of slot \<open>i\<close> is the one that the table of the
  four pairs holds at the index drawn by \<^verbatim>\<open>SDL_rand(4)\<close> on that slot's turn, so the four
  quadrants are chosen as that draw is.
\<close>

theorem C2_uv_quadrants:
  assumes "rng_contract R" and "builds fb"
  shows "\<exists>res mc'. SDL_AppIterate R fb mc = Some (res, mc') \<and>
           (\<forall>s \<in> set (gpu_buffer mc').
              (valf (tex_u s), valf (tex_v s)) \<in> {(0, 0), (1 / 2, 0), (0, 1 / 2), (1 / 2, 1 / 2)} \<and>
              valf (tex_w s) = 1 / 2 \<and> valf (tex_h s) = 1 / 2) \<and>
           (\<forall>i < SPRITE_COUNT. \<exists>q < 4.
              int q = fst (SDL_rand R 4 ((advance R ^^ i) (rng mc))) \<and>
              (valf (tex_u (gpu_buffer mc' ! i)), valf (tex_v (gpu_buffer mc' ! i))) =
                [(0, 0), (1 / 2, 0), (0, 1 / 2), (1 / 2, 1 / 2)] ! q)"
proof -
  obtain res mc' where it: "SDL_AppIterate R fb mc = Some (res, mc')"
    and arr: "gpu_buffer mc' = sprite_array (transfer mc')"
    and filled: "\<forall>i < SPRITE_COUNT.
       write_sprite R ((advance R ^^ i) (rng mc)) (SDL_MapGPUTransferBuffer fb mc i) =
         Some ((advance R ^^ Suc i) (rng mc), transfer mc' i)"
    using iterate_fill [OF assms, of mc] by blast
  note slots = filled [rule_format]
  have table: "(valf (uCoords ! q), valf (vCoords ! q)) =
      [(0, 0), (1 / 2, 0), (0, 1 / 2), (1 / 2, 1 / 2)] ! q" if "q < 4" for q
  proof -
    have "q = 0 \<or> q = 1 \<or> q = 2 \<or> q = 3"
      using that by linarith
    then show ?thesis
      by (auto simp: uCoords_def vCoords_def)
  qed
  have slot: "\<exists>q < 4. int q = fst (SDL_rand R 4 ((advance R ^^ i) (rng mc))) \<and>
      (valf (tex_u (transfer mc' i)), valf (tex_v (transfer mc' i))) =
        [(0, 0), (1 / 2, 0), (0, 1 / 2), (1 / 2, 1 / 2)] ! q" if lt: "i < SPRITE_COUNT" for i
  proof -
    obtain q where "q < length uCoords"
      and "int q = fst (SDL_rand R 4 ((advance R ^^ i) (rng mc)))"
      and "tex_u (transfer mc' i) = uCoords ! q" "tex_v (transfer mc' i) = vCoords ! q"
      using write_sprite_quadrant [OF slots [OF lt]] by blast
    then show ?thesis
      using table [of q] by (intro exI [of _ q]) (simp add: uCoords_def)
  qed
  have quadrant: "(valf (tex_u s), valf (tex_v s)) \<in> {(0, 0), (1 / 2, 0), (0, 1 / 2), (1 / 2, 1 / 2)} \<and>
      valf (tex_w s) = 1 / 2 \<and> valf (tex_h s) = 1 / 2" if mem: "s \<in> set (gpu_buffer mc')" for s
  proof -
    obtain i where i: "i < SPRITE_COUNT" and s: "s = transfer mc' i"
      using array_record [OF arr mem] by blast
    obtain q where "q < 4" and
      "(valf (tex_u s), valf (tex_v s)) = [(0, 0), (1 / 2, 0), (0, 1 / 2), (1 / 2, 1 / 2)] ! q"
      using slot [OF i] unfolding s by blast
    moreover have "q = 0 \<or> q = 1 \<or> q = 2 \<or> q = 3"
      using \<open>q < 4\<close> by linarith
    moreover have "tex_w s = F32 1 (- 1)" "tex_h s = F32 1 (- 1)"
      using write_sprite_constants [OF slots [OF i]] unfolding s by simp_all
    ultimately show ?thesis
      by auto
  qed
  have "gpu_buffer mc' ! i = transfer mc' i" if "i < SPRITE_COUNT" for i
    unfolding arr using that by (rule sprite_array_nth)
  then show ?thesis
    using it slot quadrant by (intro exI [of _ res] exI [of _ mc']) simp
qed

theorem C2_uv_quadrants_witness:
  "rng_contract lcg \<and> builds frame_ok \<and>
   (valf (tex_u (frame_array lcg frame_ok machine0 ! 0)),
    valf (tex_v (frame_array lcg frame_ok machine0 ! 0))) = (0, 0)"
proof -
  obtain res mc' where it: "SDL_AppIterate lcg frame_ok machine0 = Some (res, mc')"
    and slots: "\<forall>i < SPRITE_COUNT. \<exists>q < 4.
              int q = fst (SDL_rand lcg 4 ((advance lcg ^^ i) (rng machine0))) \<and>
              (valf (tex_u (gpu_buffer mc' ! i)), valf (tex_v (gpu_buffer mc' ! i))) =
                [(0, 0), (1 / 2, 0), (0, 1 / 2), (1 / 2, 1 / 2)] ! q"
    using C2_uv_quadrants [OF lcg_contract builds_frame_ok, of machine0] by blast
  have "0 < SPRITE_COUNT"
    by (simp add: SPRITE_COUNT_def)
  from slots [rule_format, OF this] obtain q where "int q = fst (SDL_rand lcg 4 (rng machine0))"
    and pair: "(valf (tex_u (gpu_buffer mc' ! 0)), valf (tex_v (gpu_buffer mc' ! 0))) =
                [(0, 0), (1 / 2, 0), (0, 1 / 2), (1 / 2, 1 / 2)] ! q"
    by auto
  moreover have "rng machine0 = 1"
    by (simp add: machine0_def)
  ultimately have "q = 0"
    using lcg_first_sprite(1) by simp
  then have "(valf (tex_u (gpu_buffer mc' ! 0)), valf (tex_v (gpu_buffer mc' ! 0))) = (0, 0)"
    using pair by simp
  then show ?thesis
    using it by (simp add: frame_array_def lcg_contract builds_frame_ok)
qed

text \<open>
  C3, as amended. In every record of a filled sprite array, x is in [0, 640) and y is in
  [0, 480), the size at which the window opens (\<open>windowStartWidth\<close> by
  \<open>windowStartHeight\<close>), whatever the size of the window is by then, and the rotation is
  in [0, 2 pi). In slot \<open>i\<close>, x is the draw \<^verbatim>\<open>SDL_rand(640)\<close> and y the draw
  \<^verbatim>\<open>SDL_rand(480)\<close> of the \<open>i\<close>-th turn, converted to floats, and the rotation is that
  turn's draw \<^verbatim>\<open>SDL_randf()\<close> times \<^verbatim>\<open>SDL_PI_F\<close> times 2 in single precision.
\<close>

theorem C3_position_and_rotation:
  assumes "rng_contract R" and "builds fb"
  shows "\<exists>res mc'. SDL_AppIterate R fb mc = Some (res, mc') \<and>
           (\<forall>s \<in> set (gpu_buffer mc').
              0 \<le> valf (x s) \<and> valf (x s) < of_int windowStartWidth \<and>
              0 \<le> valf (y s) \<and> valf (y s) < of_int windowStartHeight \<and>
              0 \<le> valf (rotation s) \<and> valf (rotation s) < 2 * pi) \<and>
           (\<forall>i < SPRITE_COUNT.
              case sprite_draws R ((advance R ^^ i) (rng mc)) of
                (ravioli, px, py, rf) \<Rightarrow>
                  valf (x (gpu_buffer mc' ! i)) = of_int px \<and>
                  valf (y (gpu_buffer mc' ! i)) = of_int py \<and>
                  rotation (gpu_buffer mc' ! i) = fmul (fmul rf SDL_PI_F) (f32_of_int 2))"
proof -
  obtain res mc' where it: "SDL_AppIterate R fb mc = Some (res, mc')"
    and arr: "gpu_buffer mc' = sprite_array (transfer mc')"
    and filled: "\<forall>i < SPRITE_COUNT.
       write_sprite R ((advance R ^^ i) (rng mc)) (SDL_MapGPUTransferBuffer fb mc i) =
         Some ((advance R ^^ Suc i) (rng mc), transfer mc' i)"
    using iterate_fill [OF assms, of mc] by blast
  have ranges: "0 \<le> valf (x s) \<and> valf (x s) < of_int windowStartWidth \<and>
        0 \<le> valf (y s) \<and> valf (y s) < of_int windowStartHeight \<and>
        0 \<le> valf (rotation s) \<and> valf (rotation s) < 2 * pi"
    if mem: "s \<in> set (gpu_buffer mc')" for s
  proof -
    obtain i where i: "i < SPRITE_COUNT" and s: "s = transfer mc' i"
      using array_record [OF arr mem] by blast
    note body = filled [rule_format, OF i]
    show ?thesis
      unfolding s windowStartWidth_def windowStartHeight_def
      using write_sprite_position [OF assms(1) body] write_sprite_rotation [OF assms(1) body]
      by simp
  qed
  have drawn: "case sprite_draws R ((advance R ^^ i) (rng mc)) of
      (ravioli, px, py, rf) \<Rightarrow>
        valf (x (gpu_buffer mc' ! i)) = of_int px \<and>
        valf (y (gpu_buffer mc' ! i)) = of_int py \<and>
        rotation (gpu_buffer mc' ! i) = fmul (fmul rf SDL_PI_F) (f32_of_int 2)"
    if lt: "i < SPRITE_COUNT" for i
  proof -
    obtain ravioli px py rf where
      draws: "sprite_draws R ((advance R ^^ i) (rng mc)) = (ravioli, px, py, rf)"
      by (cases "sprite_draws R ((advance R ^^ i) (rng mc))") auto
    have px: "px = fst (SDL_rand R 640 (snd (SDL_rand R 4 ((advance R ^^ i) (rng mc)))))"
      and py: "py = fst (SDL_rand R 480 (snd (SDL_rand R 640 (snd (SDL_rand R 4
             ((advance R ^^ i) (rng mc)))))))"
      using draws by (simp_all add: sprite_draws_def split_beta)
    have "0 \<le> px \<and> px < 640" "0 \<le> py \<and> py < 480"
      unfolding px py using assms(1) by (simp_all add: rng_contract_def)
    then have "\<bar>px\<bar> < 2 ^ 24" "\<bar>py\<bar> < 2 ^ 24"
      by simp_all
    then have small: "f32_of_int px = F32 px 0" "f32_of_int py = F32 py 0"
      by (simp_all add: f32_of_int_small)
    have nthi: "gpu_buffer mc' ! i = transfer mc' i"
      unfolding arr using lt by (rule sprite_array_nth)
    have eq: "transfer mc' i = snd (the (write_sprite R ((advance R ^^ i) (rng mc))
        (SDL_MapGPUTransferBuffer fb mc i)))"
      using filled [rule_format, OF lt] by simp
    show ?thesis
      unfolding draws nthi eq write_sprite_explicit [OF assms(1) draws] by (simp add: small)
  qed
  show ?thesis
    using it ranges drawn by (intro exI [of _ res] exI [of _ mc']) simp
qed

theorem C3_position_and_rotation_witness:
  "rng_contract lcg \<and> builds frame_ok \<and>
   valf (x (frame_array lcg frame_ok machine_resized ! 0)) = 635 \<and>
   valf (y (frame_array lcg frame_ok machine_resized ! 0)) = 201 \<and>
   valf (rotation (frame_array lcg frame_ok machine_resized ! 0)) < 2 * pi"
proof -
  obtain res mc' where it: "SDL_AppIterate lcg frame_ok machine_resized = Some (res, mc')"
    and range: "\<forall>s \<in> set (gpu_buffer mc').
              0 \<le> valf (x s) \<and> valf (x s) < of_int windowStartWidth \<and>
              0 \<le> valf (y s) \<and> valf (y s) < of_int windowStartHeight \<and>
              0 \<le> valf (rotation s) \<and> valf (rotation s) < 2 * pi"
    and drawn: "\<forall>i < SPRITE_COUNT.
              case sprite_draws lcg ((advance lcg ^^ i) (rng machine_resized)) of
                (ravioli, px, py, rf) \<Rightarrow>
                  valf (x (gpu_buffer mc' ! i)) = of_int px \<and>
                  valf (y (gpu_buffer mc' ! i)) = of_int py \<and>
                  rotation (gpu_buffer mc' ! i) = fmul (fmul rf SDL_PI_F) (f32_of_int 2)"
    using C3_position_and_rotation [OF lcg_contract builds_frame_ok, of machine_resized] by blast
  obtain res2 mc2 where it2: "SDL_AppIterate lcg frame_ok machine_resized = Some (res2, mc2)"
    and arr: "gpu_buffer mc2 = sprite_array (transfer mc2)"
    using iterate_fill [OF lcg_contract builds_frame_ok, of machine_resized] by blast
  have first: "0 < SPRITE_COUNT"
    by (simp add: SPRITE_COUNT_def)
  have "length (gpu_buffer mc') = SPRITE_COUNT"
    using it it2 arr by (simp add: sprite_array_length)
  then have "gpu_buffer mc' ! 0 \<in> set (gpu_buffer mc')"
    using first by simp
  then have rot: "valf (rotation (gpu_buffer mc' ! 0)) < 2 * pi"
    using range by blast
  have draws: "sprite_draws lcg ((advance lcg ^^ 0) (rng machine_resized)) =
      (0, 635, 201, F32 13016045 (- 24))"
    using lcg_first_draws(1) by (simp add: machine_resized_def machine0_def lcg_def)
  have "valf (x (gpu_buffer mc' ! 0)) = 635 \<and> valf (y (gpu_buffer mc' ! 0)) = 201"
    using drawn [rule_format, OF first] unfolding draws by simp
  then show ?thesis
    using it rot lcg_contract builds_frame_ok by (simp add: frame_array_def)
qed

text \<open>
  The claim as it was written bounds x by the window's logical width. After the window
  is resized to 320 by 240, the first record of the next frame has x = 635.
\<close>

theorem C3_window_width_counterexample:
  "window_w machine_resized = 320 \<and>
   valf (x (frame_array lcg frame_ok machine_resized ! 0)) = 635 \<and>
   \<not> valf (x (frame_array lcg frame_ok machine_resized ! 0)) < of_int (window_w machine_resized)"
proof -
  obtain res mc' where it: "SDL_AppIterate lcg frame_ok machine_resized = Some (res, mc')"
    and arr: "gpu_buffer mc' = sprite_array (transfer mc')"
    and filled: "\<forall>i < SPRITE_COUNT.
       write_sprite lcg ((advance lcg ^^ i) (rng machine_resized))
           (SDL_MapGPUTransferBuffer frame_ok machine_resized i) =
         Some ((advance lcg ^^ Suc i) (rng machine_resized), transfer mc' i)"
    using iterate_fill [OF lcg_contract builds_frame_ok, of machine_resized] by blast
  have first: "0 < SPRITE_COUNT"
    by (simp add: SPRITE_COUNT_def)
  have seed: "rng machine_resized = 1"
    by (simp add: machine_resized_def machine0_def)
  have "x (transfer mc' 0) = f32_of_int 635"
    using write_sprite_x [OF filled [rule_format, OF first]] lcg_first_sprite(2)
    by (simp add: seed)
  then have "x (transfer mc' 0) = F32 635 0"
    by (simp add: f32_of_int_small)
  moreover have "frame_array lcg frame_ok machine_resized ! 0 = transfer mc' 0"
    using it arr first by (simp add: frame_array_def sprite_array_nth)
  moreover have "window_w machine_resized = 320"
    by (simp add: machine_resized_def)
  ultimately show ?thesis
    by simp
qed

text \<open>
  C4. In every record of a filled sprite array, the depth z is 0, the size is 32 by 32
  (w = 32, h = 32), and the colour (r, g, b, a) is (1, 1, 1, 1).
\<close>

theorem C4_constant_fields:
  assumes "rng_contract R" and "builds fb"
  shows "\<exists>res mc'. SDL_AppIterate R fb mc = Some (res, mc') \<and>
           (\<forall>s \<in> set (gpu_buffer mc').
              valf (z s) = 0 \<and> valf (w s) = 32 \<and> valf (h s) = 32 \<and>
              valf (r s) = 1 \<and> valf (g s) = 1 \<and> valf (b s) = 1 \<and> valf (a s) = 1)"
proof -
  obtain res mc' where it: "SDL_AppIterate R fb mc = Some (res, mc')"
    and arr: "gpu_buffer mc' = sprite_array (transfer mc')"
    and filled: "\<forall>i < SPRITE_COUNT.
       write_sprite R ((advance R ^^ i) (rng mc)) (SDL_MapGPUTransferBuffer fb mc i) =
         Some ((advance R ^^ Suc i) (rng mc), transfer mc' i)"
    using iterate_fill [OF assms, of mc] by blast
  have "valf (z s) = 0 \<and> valf (w s) = 32 \<and> valf (h s) = 32 \<and>
        valf (r s) = 1 \<and> valf (g s) = 1 \<and> valf (b s) = 1 \<and> valf (a s) = 1"
    if mem: "s \<in> set (gpu_buffer mc')" for s
  proof -
    obtain i where i: "i < SPRITE_COUNT" and s: "s = transfer mc' i"
      using array_record [OF arr mem] by blast
    show ?thesis
      unfolding s using write_sprite_constants [OF filled [rule_format, OF i]] by simp
  qed
  then show ?thesis
    using it by blast
qed

theorem C4_constant_fields_witness:
  "rng_contract lcg \<and> builds frame_ok \<and>
   valf (z (frame_array lcg frame_ok machine0 ! 8191)) = 0 \<and>
   valf (w (frame_array lcg frame_ok machine0 ! 8191)) = 32 \<and>
   valf (a (frame_array lcg frame_ok machine0 ! 8191)) = 1"
proof -
  obtain res mc' where it: "SDL_AppIterate lcg frame_ok machine0 = Some (res, mc')"
    and fields: "\<forall>s \<in> set (gpu_buffer mc').
              valf (z s) = 0 \<and> valf (w s) = 32 \<and> valf (h s) = 32 \<and>
              valf (r s) = 1 \<and> valf (g s) = 1 \<and> valf (b s) = 1 \<and> valf (a s) = 1"
    using C4_constant_fields [OF lcg_contract builds_frame_ok, of machine0] by blast
  obtain res2 mc2 where it2: "SDL_AppIterate lcg frame_ok machine0 = Some (res2, mc2)"
    and arr: "gpu_buffer mc2 = sprite_array (transfer mc2)"
    using iterate_fill [OF lcg_contract builds_frame_ok, of machine0] by blast
  have "length (gpu_buffer mc') = SPRITE_COUNT"
    using it it2 arr by (simp add: sprite_array_length)
  then have "gpu_buffer mc' ! 8191 \<in> set (gpu_buffer mc')"
    by (simp add: SPRITE_COUNT_def)
  then have "valf (z (gpu_buffer mc' ! 8191)) = 0 \<and> valf (w (gpu_buffer mc' ! 8191)) = 32 \<and>
      valf (a (gpu_buffer mc' ! 8191)) = 1"
    using fields by blast
  then show ?thesis
    using it by (simp add: frame_array_def lcg_contract builds_frame_ok)
qed

text \<open>
  C5, as amended. Determinism: take two runs of the program, each from the state that a
  successful \<^verbatim>\<open>SDL_AppInit\<close> leaves, in which the generator has been seeded once, with
  the seed 0. If the two runs make the same sequence of random draws in each frame, they
  produce sprite arrays that agree, frame for frame and record for record, in every
  field that the build step assigns, that is in all but the two padding fields.
\<close>

theorem C5_same_draws_same_arrays:
  assumes "rng_contract R"
    and "after_init R env1 counter1 mem1 buf1 = Some mc1"
    and "after_init R env2 counter2 mem2 buf2 = Some mc2"
    and "run_draws R fbs1 mc1 = run_draws R fbs2 mc2"
  shows "count_list (calls mc1) (SDL_srand_call 0) = 1 \<and> rng mc1 = SDL_srand R 0 counter1 \<and>
         count_list (calls mc2) (SDL_srand_call 0) = 1 \<and> rng mc2 = SDL_srand R 0 counter2 \<and>
         (\<exists>arrays1 arrays2.
            sprite_arrays R fbs1 mc1 = Some arrays1 \<and> sprite_arrays R fbs2 mc2 = Some arrays2 \<and>
            list_all2 (list_all2 same_assigned) arrays1 arrays2)"
proof -
  have "count_list (calls mc1) (SDL_srand_call 0) = 1"
    unfolding after_init_state(2) [OF assms(2)]
    using init_seeds_once [OF after_init_state(3) [OF assms(2)], of 0] by simp
  moreover have "count_list (calls mc2) (SDL_srand_call 0) = 1"
    unfolding after_init_state(2) [OF assms(3)]
    using init_seeds_once [OF after_init_state(3) [OF assms(3)], of 0] by simp
  moreover note after_init_state(1) [OF assms(2)] after_init_state(1) [OF assms(3)]
  moreover note same_draws_same_assigned [OF assms(1,4)]
  ultimately show ?thesis
    by blast
qed

theorem C5_same_draws_same_arrays_witness:
  "rng_contract lcg \<and>
   after_init lcg env_ok 1 blank_memory [] = Some boot_blank \<and>
   after_init lcg env_ok 1 marked_memory [] = Some boot_marked \<and>
   run_draws lcg [frame_ok] boot_blank = run_draws lcg [frame_ok] boot_marked \<and>
   count_list (calls boot_blank) (SDL_srand_call 0) = 1 \<and>
   list_all2 same_assigned
     (frame_array lcg frame_ok boot_blank) (frame_array lcg frame_ok boot_marked)"
proof -
  have draws: "run_draws lcg [frame_ok] boot_blank = run_draws lcg [frame_ok] boot_marked"
    unfolding run_draws_single by (simp add: boot_states)
  have seeded: "count_list (calls boot_blank) (SDL_srand_call 0) = 1"
    using C5_same_draws_same_arrays [OF lcg_contract after_init_boot draws] by blast
  obtain arrays1 arrays2 where
    "sprite_arrays lcg [frame_ok] boot_blank = Some arrays1"
    "sprite_arrays lcg [frame_ok] boot_marked = Some arrays2"
    "list_all2 (list_all2 same_assigned) arrays1 arrays2"
    using C5_same_draws_same_arrays [OF lcg_contract after_init_boot draws] by blast
  then have "list_all2 same_assigned
     (frame_array lcg frame_ok boot_blank) (frame_array lcg frame_ok boot_marked)"
    unfolding sprite_arrays_single [OF lcg_contract builds_frame_ok] by auto
  then show ?thesis
    using lcg_contract after_init_boot draws seeded by blast
qed

text \<open>
  The claim as it was written asks for identical arrays. Two runs after the same
  initialisation, seeded with 0 at the same reading of the counter and so making the
  same draws, over transfer memory that differs in a padding field, upload arrays that
  differ.
\<close>

theorem C5_identical_arrays_counterexample:
  "after_init lcg env_ok 1 blank_memory [] = Some boot_blank \<and>
   after_init lcg env_ok 1 marked_memory [] = Some boot_marked \<and>
   run_draws lcg [frame_ok] boot_blank = run_draws lcg [frame_ok] boot_marked \<and>
   sprite_arrays lcg [frame_ok] boot_blank \<noteq> sprite_arrays lcg [frame_ok] boot_marked"
proof -
  have draws: "run_draws lcg [frame_ok] boot_blank = run_draws lcg [frame_ok] boot_marked"
    unfolding run_draws_single by (simp add: boot_states)
  have "padding_a (frame_array lcg frame_ok boot_blank ! 0) = F32 0 0"
    "padding_a (frame_array lcg frame_ok boot_marked ! 0) = F32 7 0"
    using frame_array_first [OF lcg_contract builds_frame_ok] boot_states by simp_all
  then have "frame_array lcg frame_ok boot_blank \<noteq> frame_array lcg frame_ok boot_marked"
    by auto
  then have "sprite_arrays lcg [frame_ok] boot_blank \<noteq> sprite_arrays lcg [frame_ok] boot_marked"
    unfolding sprite_arrays_single [OF lcg_contract builds_frame_ok] by simp
  then show ?thesis
    using after_init_boot draws by blast
qed

text \<open>
  C6. When the vertex shader's file is missing, so that \<^verbatim>\<open>LoadShader\<close> returns \<^verbatim>\<open>NULL\<close>,
  and every other call succeeds, \<^verbatim>\<open>SDL_AppInit\<close> does not test the result: it creates the
  pipeline with the \<^verbatim>\<open>NULL\<close> shader, logs no error and returns \<^verbatim>\<open>SDL_APP_CONTINUE\<close>, where
  the claim asks for a logged error and a failure signal.
\<close>

theorem C6_missing_shader_not_checked:
  "LoadShader_res env_missing_shader ''PullSpriteBatch.vert'' = None \<and>
   fst (fst (SDL_AppInit env_missing_shader)) = SDL_APP_CONTINUE \<and>
   SDL_LogError_call \<notin> set (snd (fst (SDL_AppInit env_missing_shader))) \<and>
   SDL_CreateGPUGraphicsPipeline_call None (Some 5) \<in> set (snd (fst (SDL_AppInit env_missing_shader)))"
  by (simp add: env_missing_shader_def env_ok_def SDL_AppInit_def SDL_Fail_def Let_def
      init_gpu_calls_def init_resource_calls_def init_font_calls_def init_final_calls_def
      present_mode_queries_def)

text \<open>
  C7. Start from the state that a successful \<^verbatim>\<open>SDL_AppInit\<close> leaves, and let any sequence
  of events and iterations pass. The next iteration, when its two backend calls succeed,
  returns \<^verbatim>\<open>SDL_APP_SUCCESS\<close> if a quit event (\<^verbatim>\<open>SDL_EVENT_QUIT\<close>) was among them, and
  \<^verbatim>\<open>SDL_APP_CONTINUE\<close> if none was.
\<close>

theorem C7_quit_then_success:
  assumes "rng_contract R"
    and "SDL_AppInit env = (outcome, Some ctx)" and "app mc = ctx"
    and "backend_ok fb"
  shows "\<exists>rs mc'. run R (pre @ [Frame fb]) mc =
           Some (rs @ [if quit_seen pre then SDL_APP_SUCCESS else SDL_APP_CONTINUE], mc')"
proof -
  have start: "app_quit (app mc) = SDL_APP_CONTINUE"
    using init_app_quit [OF assms(2)] assms(3) by simp
  obtain rs mc1 where before: "run R pre mc = Some (rs, mc1)"
    and quit: "app_quit (app mc1) = (if quit_seen pre then SDL_APP_SUCCESS else app_quit (app mc))"
    using run_app_quit [OF assms(1), of pre mc] by blast
  obtain res mc2 where it: "SDL_AppIterate R fb mc1 = Some (res, mc2)"
    and res: "backend_ok fb \<longrightarrow> res = app_quit (app mc1)"
    using iterate_total [OF assms(1), of fb mc1] by blast
  have "res = (if quit_seen pre then SDL_APP_SUCCESS else SDL_APP_CONTINUE)"
    using res assms(4) quit start by simp
  then have "run R (pre @ [Frame fb]) mc =
      Some (rs @ [if quit_seen pre then SDL_APP_SUCCESS else SDL_APP_CONTINUE], mc2)"
    using before it by (simp add: run_append)
  then show ?thesis
    by blast
qed

theorem C7_quit_then_success_witness:
  "rng_contract lcg \<and> snd (SDL_AppInit env_ok) = Some (app machine0) \<and>
   backend_ok frame_no_texture \<and> quit_seen [Frame frame_ok, Event quit_event] \<and>
   (\<exists>rs mc'. run lcg ([Frame frame_ok, Event quit_event] @ [Frame frame_no_texture]) machine0 =
      Some (rs @ [SDL_APP_SUCCESS], mc'))"
proof -
  have init: "SDL_AppInit env_ok = (fst (SDL_AppInit env_ok), Some (app machine0))"
    by (simp add: env_ok_def SDL_AppInit_def machine0_def Let_def)
  have ok: "backend_ok frame_no_texture"
    by (simp add: backend_ok_def frame_no_texture_def)
  have seen: "quit_seen [Frame frame_ok, Event quit_event]"
    by (simp add: quit_event_def)
  have state: "snd (SDL_AppInit env_ok) = Some (app machine0)"
    by (subst init) simp
  obtain rs mc' where
    "run lcg ([Frame frame_ok, Event quit_event] @ [Frame frame_no_texture]) machine0 =
       Some (rs @ [if quit_seen [Frame frame_ok, Event quit_event]
                   then SDL_APP_SUCCESS else SDL_APP_CONTINUE], mc')"
    using C7_quit_then_success [OF lcg_contract init refl ok] by blast
  then have "\<exists>rs mc'.
      run lcg ([Frame frame_ok, Event quit_event] @ [Frame frame_no_texture]) machine0 =
        Some (rs @ [SDL_APP_SUCCESS], mc')"
    unfolding if_P [OF seen] by blast
  then show ?thesis
    using lcg_contract state ok seen by blast
qed

text \<open>
  C8, as amended. In every frame where the build step runs, the fourteen fields other
  than the padding are written anew in each of the 8192 records: what they hold
  afterwards depends on the state of the generator at the start of the frame and not on
  what the buffer held, so that two such frames started in the same generator state, on
  whatever memory, leave records that agree in those fields. The two padding fields are
  not written: they hold what the mapped transfer memory held.
\<close>

theorem C8_assigned_fields_overwritten:
  assumes "rng_contract R" and "builds fb1" and "builds fb2" and "rng mc1 = rng mc2"
  shows "\<exists>res1 mc1' res2 mc2'.
      SDL_AppIterate R fb1 mc1 = Some (res1, mc1') \<and>
      SDL_AppIterate R fb2 mc2 = Some (res2, mc2') \<and>
      (\<forall>i < SPRITE_COUNT.
         same_assigned (gpu_buffer mc1' ! i) (gpu_buffer mc2' ! i) \<and>
         padding_a (gpu_buffer mc1' ! i) = padding_a (SDL_MapGPUTransferBuffer fb1 mc1 i) \<and>
         padding_b (gpu_buffer mc1' ! i) = padding_b (SDL_MapGPUTransferBuffer fb1 mc1 i))"
proof -
  obtain res1 mc1' res2 mc2' where
    it1: "SDL_AppIterate R fb1 mc1 = Some (res1, mc1')"
    and it2: "SDL_AppIterate R fb2 mc2 = Some (res2, mc2')"
    and arr1: "gpu_buffer mc1' = sprite_array (transfer mc1')"
    and arr2: "gpu_buffer mc2' = sprite_array (transfer mc2')"
    and same: "\<forall>i < SPRITE_COUNT.
       same_assigned (transfer mc1' i) (transfer mc2' i) \<and>
       padding_a (transfer mc1' i) = padding_a (SDL_MapGPUTransferBuffer fb1 mc1 i) \<and>
       padding_b (transfer mc1' i) = padding_b (SDL_MapGPUTransferBuffer fb1 mc1 i)"
    using iterate_same_assigned [OF assms] by blast
  have "\<forall>i < SPRITE_COUNT.
         same_assigned (gpu_buffer mc1' ! i) (gpu_buffer mc2' ! i) \<and>
         padding_a (gpu_buffer mc1' ! i) = padding_a (SDL_MapGPUTransferBuffer fb1 mc1 i) \<and>
         padding_b (gpu_buffer mc1' ! i) = padding_b (SDL_MapGPUTransferBuffer fb1 mc1 i)"
    unfolding arr1 arr2 using same by (simp add: sprite_array_nth)
  then show ?thesis
    using it1 it2 by blast
qed

theorem C8_assigned_fields_overwritten_witness:
  "rng_contract lcg \<and> builds frame_ok \<and> rng machine_marked = rng machine0 \<and>
   same_assigned (frame_array lcg frame_ok machine_marked ! 0) (frame_array lcg frame_ok machine0 ! 0) \<and>
   padding_a (frame_array lcg frame_ok machine_marked ! 0) = F32 7 0"
proof -
  have gen: "rng machine_marked = rng machine0"
    by (simp add: machine_marked_def)
  have first: "0 < SPRITE_COUNT"
    by (simp add: SPRITE_COUNT_def)
  obtain res1 mc1' res2 mc2' where
    it1: "SDL_AppIterate lcg frame_ok machine_marked = Some (res1, mc1')"
    and it2: "SDL_AppIterate lcg frame_ok machine0 = Some (res2, mc2')"
    and same: "\<forall>i < SPRITE_COUNT.
         same_assigned (gpu_buffer mc1' ! i) (gpu_buffer mc2' ! i) \<and>
         padding_a (gpu_buffer mc1' ! i) =
           padding_a (SDL_MapGPUTransferBuffer frame_ok machine_marked i) \<and>
         padding_b (gpu_buffer mc1' ! i) =
           padding_b (SDL_MapGPUTransferBuffer frame_ok machine_marked i)"
    using C8_assigned_fields_overwritten [OF lcg_contract builds_frame_ok builds_frame_ok gen]
    by blast
  have "same_assigned (gpu_buffer mc1' ! 0) (gpu_buffer mc2' ! 0)"
    and "padding_a (gpu_buffer mc1' ! 0) = F32 7 0"
    using same [rule_format, OF first] marked_padding(1) by simp_all
  then have "same_assigned (frame_array lcg frame_ok machine_marked ! 0)
        (frame_array lcg frame_ok machine0 ! 0)"
    and "padding_a (frame_array lcg frame_ok machine_marked ! 0) = F32 7 0"
    using it1 it2 by (simp_all add: frame_array_def)
  then show ?thesis
    using lcg_contract builds_frame_ok gen by blast
qed

text \<open>
  The claim as it was written has the padding fields written anew as well, with nothing
  kept from before. A 7 in the first padding field of slot 0 of the transfer buffer is
  still there in the array of the next frame, and that record is not the one that the
  same frame leaves over a buffer of zeros.
\<close>

theorem C8_padding_kept_counterexample:
  "padding_a (transfer machine_marked 0) = F32 7 0 \<and>
   padding_a (frame_array lcg frame_ok machine_marked ! 0) = F32 7 0 \<and>
   frame_array lcg frame_ok machine_marked ! 0 \<noteq> frame_array lcg frame_ok machine0 ! 0"
proof -
  have "padding_a (frame_array lcg frame_ok machine0 ! 0) = F32 0 0"
    and kept: "padding_a (frame_array lcg frame_ok machine_marked ! 0) = F32 7 0"
    using frame_array_first [OF lcg_contract builds_frame_ok] marked_padding by simp_all
  then have "frame_array lcg frame_ok machine_marked ! 0 \<noteq> frame_array lcg frame_ok machine0 ! 0"
    by auto
  moreover have "padding_a (transfer machine_marked 0) = F32 7 0"
    by (simp add: machine_marked_def marked_sprite_def)
  ultimately show ?thesis
    using kept by blast
qed

text \<open>
  C9. Once \<^verbatim>\<open>SDL_AppInit\<close> has claimed the window for the device, it asks for exactly one
  present mode: immediate when the window supports it, otherwise mailbox when the window
  supports that, otherwise vsync; and it passes that mode to
  \<^verbatim>\<open>SDL_SetGPUSwapchainParameters\<close>.
\<close>

theorem C9_present_mode:
  assumes "SDL_Init_ok env" and "TTF_Init_ok env"
    and "SDL_CreateWindow_res env = Some win" and "SDL_GetBasePath_res env = Some basePath"
    and "SDL_CreateGPUDevice_res env = Some dev" and "SDL_ClaimWindowForGPUDevice_ok env"
  shows "SDL_SetGPUSwapchainParameters_call pm \<in> set (snd (fst (SDL_AppInit env))) \<longleftrightarrow>
         pm = (if SDL_WindowSupportsGPUPresentMode_res env SDL_GPU_PRESENTMODE_IMMEDIATE
               then SDL_GPU_PRESENTMODE_IMMEDIATE
               else if SDL_WindowSupportsGPUPresentMode_res env SDL_GPU_PRESENTMODE_MAILBOX
               then SDL_GPU_PRESENTMODE_MAILBOX
               else SDL_GPU_PRESENTMODE_VSYNC)"
proof -
  have gpu: "SDL_SetGPUSwapchainParameters_call pm \<in> set (init_gpu_calls env) \<longleftrightarrow>
      pm = choose_present_mode (SDL_WindowSupportsGPUPresentMode_res env)"
    by (auto simp: init_gpu_calls_def present_mode_queries_def)
  have other: "SDL_SetGPUSwapchainParameters_call pm \<notin> set init_resource_calls"
    "SDL_SetGPUSwapchainParameters_call pm \<notin> set init_font_calls"
    "SDL_SetGPUSwapchainParameters_call pm \<notin> set (init_final_calls env)"
    by (auto simp: init_resource_calls_def init_font_calls_def init_final_calls_def)
  have "SDL_SetGPUSwapchainParameters_call pm \<in> set (snd (fst (SDL_AppInit env))) \<longleftrightarrow>
      pm = choose_present_mode (SDL_WindowSupportsGPUPresentMode_res env)"
    using assms gpu other
    by (simp add: SDL_AppInit_def SDL_Fail_def Let_def split: option.splits)
  then show ?thesis
    by (simp add: choose_present_mode_def)
qed

theorem C9_present_mode_witness:
  "SDL_Init_ok env_ok \<and> TTF_Init_ok env_ok \<and> SDL_CreateWindow_res env_ok = Some 1 \<and>
   SDL_GetBasePath_res env_ok = Some ''/app/'' \<and> SDL_CreateGPUDevice_res env_ok = Some 2 \<and>
   SDL_ClaimWindowForGPUDevice_ok env_ok \<and>
   SDL_SetGPUSwapchainParameters_call SDL_GPU_PRESENTMODE_MAILBOX \<in> set (snd (fst (SDL_AppInit env_ok))) \<and>
   SDL_SetGPUSwapchainParameters_call SDL_GPU_PRESENTMODE_VSYNC \<notin> set (snd (fst (SDL_AppInit env_ok)))"
proof -
  have env: "SDL_Init_ok env_ok" "TTF_Init_ok env_ok" "SDL_CreateWindow_res env_ok = Some 1"
    "SDL_GetBasePath_res env_ok = Some ''/app/''" "SDL_CreateGPUDevice_res env_ok = Some 2"
    "SDL_ClaimWindowForGPUDevice_ok env_ok"
    by (simp_all add: env_ok_def)
  have supports: "\<not> SDL_WindowSupportsGPUPresentMode_res env_ok SDL_GPU_PRESENTMODE_IMMEDIATE"
    "SDL_WindowSupportsGPUPresentMode_res env_ok SDL_GPU_PRESENTMODE_MAILBOX"
    by (simp_all add: env_ok_def)
  have "SDL_SetGPUSwapchainParameters_call SDL_GPU_PRESENTMODE_MAILBOX
      \<in> set (snd (fst (SDL_AppInit env_ok)))"
    and "SDL_SetGPUSwapchainParameters_call SDL_GPU_PRESENTMODE_VSYNC
      \<notin> set (snd (fst (SDL_AppInit env_ok)))"
    unfolding C9_present_mode [OF env] using supports by simp_all
  then show ?thesis
    using env by blast
qed

text \<open>
  C10. When the command buffer is acquired and the swapchain texture is acquired but is
  \<^verbatim>\<open>NULL\<close>, the iteration skips the build, the upload and the draw: the generator, the
  transfer buffer, the GPU buffer and the application state are as before, the only call
  after the acquisition is the submission of the command buffer, and the value returned
  is the current \<^verbatim>\<open>app_quit\<close>, with no error logged.
\<close>

theorem C10_null_texture_skips_build:
  assumes "SDL_AcquireGPUCommandBuffer_res fb = Some cmdBuf"
    and "SDL_WaitAndAcquireGPUSwapchainTexture_res fb = Acquired None"
  shows "\<exists>mc'. SDL_AppIterate R fb mc = Some (app_quit (app mc), mc') \<and>
           rng mc' = rng mc \<and> transfer mc' = transfer mc \<and> gpu_buffer mc' = gpu_buffer mc \<and>
           app mc' = app mc \<and>
           calls mc' = calls mc @ acquire_calls @ [SDL_SubmitGPUCommandBuffer_call cmdBuf]"
  using assms by (simp add: SDL_AppIterate_def)

theorem C10_null_texture_skips_build_witness:
  "SDL_AcquireGPUCommandBuffer_res frame_no_texture = Some 1 \<and>
   SDL_WaitAndAcquireGPUSwapchainTexture_res frame_no_texture = Acquired None \<and>
   (\<exists>mc'. SDL_AppIterate lcg frame_no_texture machine0 = Some (SDL_APP_CONTINUE, mc') \<and>
      rng mc' = 1 \<and> calls mc' = acquire_calls @ [SDL_SubmitGPUCommandBuffer_call 1])"
proof -
  have fb: "SDL_AcquireGPUCommandBuffer_res frame_no_texture = Some 1"
    "SDL_WaitAndAcquireGPUSwapchainTexture_res frame_no_texture = Acquired None"
    by (simp_all add: frame_no_texture_def)
  obtain mc' where "SDL_AppIterate lcg frame_no_texture machine0 = Some (app_quit (app machine0), mc')"
    and "rng mc' = rng machine0"
    and "calls mc' = calls machine0 @ acquire_calls @ [SDL_SubmitGPUCommandBuffer_call 1]"
    using C10_null_texture_skips_build [OF fb, of lcg machine0] by blast
  then have "\<exists>mc'. SDL_AppIterate lcg frame_no_texture machine0 = Some (SDL_APP_CONTINUE, mc') \<and>
      rng mc' = 1 \<and> calls mc' = acquire_calls @ [SDL_SubmitGPUCommandBuffer_call 1]"
    by (simp add: machine0_def)
  then show ?thesis
    using fb by blast
qed

end
